theory Spec2Isabelle
  imports Main
begin

section \<open>Values decoded from JSON\<close>

text \<open>
  The three scripts (\<^verbatim>\<open>cdkey.py\<close>, \<^verbatim>\<open>cd_key_retrieval.py\<close>,
  \<^verbatim>\<open>cdkey_info_retrieval.py\<close>) work on whatever \<^verbatim>\<open>response.json()\<close> hands
  them, so the model keeps the decoded value untyped, as Python does. Numbers are the
  integers (the endpoints send integer codes); an object lists each key once, in the
  order of the decoded dict.
\<close>

datatype json =
    JNull
  | JBool bool
  | JInt int
  | JStr string
  | JList "json list"
  | JObj "(string \<times> json) list"

text \<open>The exceptions the scripts can meet; none of them is caught anywhere.\<close>

datatype error =
    RequestException
  | JSONDecodeError
  | TypeError
  | KeyError
  | IndexError

text \<open>Python truth value of a decoded value (\<^verbatim>\<open>if x\<close>, \<^verbatim>\<open>if not x\<close>).\<close>

fun truthy :: "json \<Rightarrow> bool" where
  "truthy JNull = False"
| "truthy (JBool b) = b"
| "truthy (JInt i) = (i \<noteq> 0)"
| "truthy (JStr s) = (s \<noteq> [])"
| "truthy (JList xs) = (xs \<noteq> [])"
| "truthy (JObj kvs) = (kvs \<noteq> [])"

text \<open>\<^verbatim>\<open>x[key]\<close> with a string key: only a dict accepts it.\<close>

fun py_getitem :: "json \<Rightarrow> string \<Rightarrow> error + json" where
  "py_getitem (JObj kvs) key =
     (case map_of kvs key of None \<Rightarrow> Inl KeyError | Some v \<Rightarrow> Inr v)"
| "py_getitem JNull key = Inl TypeError"
| "py_getitem (JBool b) key = Inl TypeError"
| "py_getitem (JInt i) key = Inl TypeError"
| "py_getitem (JStr s) key = Inl TypeError"
| "py_getitem (JList xs) key = Inl TypeError"

text \<open>\<^verbatim>\<open>x[0]\<close>: the first element of a list, the first character of a string; a
  decoded dict has string keys only, so the key \<^verbatim>\<open>0\<close> is missing.\<close>

fun py_getitem0 :: "json \<Rightarrow> error + json" where
  "py_getitem0 (JList []) = Inl IndexError"
| "py_getitem0 (JList (x # xs)) = Inr x"
| "py_getitem0 (JStr []) = Inl IndexError"
| "py_getitem0 (JStr (c # cs)) = Inr (JStr [c])"
| "py_getitem0 (JObj kvs) = Inl KeyError"
| "py_getitem0 JNull = Inl TypeError"
| "py_getitem0 (JBool b) = Inl TypeError"
| "py_getitem0 (JInt i) = Inl TypeError"

text \<open>\<^verbatim>\<open>for v in x\<close>: the elements of a list, the characters of a string, the keys
  of a dict; anything else is not iterable.\<close>

fun py_iter :: "json \<Rightarrow> error + json list" where
  "py_iter (JList xs) = Inr xs"
| "py_iter (JStr s) = Inr (map (\<lambda>c. JStr [c]) s)"
| "py_iter (JObj kvs) = Inr (map (\<lambda>kv. JStr (fst kv)) kvs)"
| "py_iter JNull = Inl TypeError"
| "py_iter (JBool b) = Inl TypeError"
| "py_iter (JInt i) = Inl TypeError"

text \<open>
  A decoded value used as a dict key. Lists and dicts are unhashable. Python compares
  keys with \<^verbatim>\<open>==\<close>, under which \<^verbatim>\<open>False\<close> is \<^verbatim>\<open>0\<close> and \<^verbatim>\<open>True\<close> is
  \<^verbatim>\<open>1\<close>, so booleans are keyed as those integers.
\<close>

datatype pykey = KNone | KInt int | KStr string

fun hash_key :: "json \<Rightarrow> error + pykey" where
  "hash_key JNull = Inr KNone"
| "hash_key (JBool b) = Inr (KInt (if b then 1 else 0))"
| "hash_key (JInt i) = Inr (KInt i)"
| "hash_key (JStr s) = Inr (KStr s)"
| "hash_key (JList xs) = Inl TypeError"
| "hash_key (JObj kvs) = Inl TypeError"

text \<open>\<^verbatim>\<open>d[k] = v\<close> on an insertion-ordered dict: an existing key keeps its place.\<close>

fun dict_set :: "('k \<times> 'v) list \<Rightarrow> 'k \<Rightarrow> 'v \<Rightarrow> ('k \<times> 'v) list" where
  "dict_set [] k v = [(k, v)]"
| "dict_set (kv # d) k v =
     (if fst kv = k then (k, v) # d else kv # dict_set d k v)"

section \<open>The remote endpoints\<close>

text \<open>
  A GET request as the scripts build it. The remote side is a parameter of the model:
  a function from the request and the server's state to a reply and the next state
  (the redemption endpoint is not idempotent, so the state matters). A reply is a
  transport failure (connection error or timeout), a body that is not JSON, or a
  decoded body. The HTTP status is never read by the scripts. Every call is appended,
  with its reply, to the log of the run.
\<close>

record request =
  url :: string
  params :: "(string \<times> json) list"
  headers :: "(string \<times> string) list"
  timeout :: nat

datatype reply = NoReply | NotJSON | Body json

type_synonym 'w remote = "request \<Rightarrow> 'w \<Rightarrow> reply \<times> 'w"

record 'w net =
  log :: "(request \<times> reply) list"
  server :: 'w

text \<open>\<^verbatim>\<open>requests.get(...).json()\<close>: one call, then decoding of the body. The
  call raises when there is no reply, the decoding when the body is not JSON.\<close>

fun reply_json :: "reply \<Rightarrow> error + json" where
  "reply_json NoReply = Inl RequestException"
| "reply_json NotJSON = Inl JSONDecodeError"
| "reply_json (Body j) = Inr j"

definition get_json :: "'w remote \<Rightarrow> request \<Rightarrow> 'w net \<Rightarrow> (error + json) \<times> 'w net" where
  "get_json rem req st =
     (case rem req (server st) of (rep, w) \<Rightarrow>
        (reply_json rep, \<lparr>log = log st @ [(req, rep)], server = w\<rparr>))"

definition URL :: string where
  "URL = ''https://sg-hk4e-api.hoyoverse.com/common/apicdkey/api/webExchangeCdkey''"

definition CDKEY_API_URL :: string where
  "CDKEY_API_URL = ''https://sg-hk4e-api.hoyoverse.com/common/apicdkey/api/webExchangeCdkey''"

definition user_roles_url :: string where
  "user_roles_url =
     ''https://api-account-os.hoyoverse.com/account/binding/api/'' @
     ''getUserGameRolesByCookieToken''"

section \<open>Redemption check\<close>

text \<open>The literal dict of the three scripts and its \<^verbatim>\<open>.get(retcode, "unknown")\<close>.\<close>

definition status_table :: "(pykey \<times> string) list" where
  "status_table =
     [(KInt 0, ''success''),
      (KInt (- 2001), ''expired''),
      (KInt (- 2003), ''invalid''),
      (KInt (- 2017), ''already in use'')]"

definition status_get :: "json \<Rightarrow> error + string" where
  "status_get retcode =
     (case hash_key retcode of
        Inl e \<Rightarrow> Inl e
      | Inr k \<Rightarrow>
          Inr (case map_of status_table k of None \<Rightarrow> ''unknown'' | Some s \<Rightarrow> s))"

text \<open>The request of the redemption endpoint (same parameters in the three scripts).\<close>

definition exchange_params :: "json \<Rightarrow> string \<Rightarrow> string \<Rightarrow> json \<Rightarrow> (string \<times> json) list" where
  "exchange_params uid cdkey region game_biz_parameter =
     [(''uid'', uid),
      (''region'', JStr region),
      (''lang'', JStr ''en''),
      (''cdkey'', JStr cdkey),
      (''game_biz'', game_biz_parameter),
      (''sLangKey'', JStr ''en-us'')]"

text \<open>\<^verbatim>\<open>cdkey.py\<close>, \<^verbatim>\<open>get_cdkey_info\<close>.\<close>

definition cdkey_get_cdkey_info ::
  "'w remote \<Rightarrow> json \<Rightarrow> string \<Rightarrow> string \<Rightarrow> string \<Rightarrow> json \<Rightarrow> 'w net
     \<Rightarrow> (error + string) \<times> 'w net" where
  "cdkey_get_cdkey_info rem uid cdkey cookie region game_biz_parameter st =
     (case get_json rem
             \<lparr>url = URL, params = exchange_params uid cdkey region game_biz_parameter,
              headers = [(''Cookie'', cookie)], timeout = 1\<rparr> st of
        (Inl e, st1) \<Rightarrow> (Inl e, st1)
      | (Inr cdkey_info, st1) \<Rightarrow>
          (case py_getitem cdkey_info ''retcode'' of
             Inl e \<Rightarrow> (Inl e, st1)
           | Inr retcode \<Rightarrow> (status_get retcode, st1)))"

text \<open>\<^verbatim>\<open>cd_key_retrieval.py\<close>, \<^verbatim>\<open>get_cdkey_status\<close>.\<close>

definition cd_key_retrieval_get_cdkey_status ::
  "'w remote \<Rightarrow> json \<Rightarrow> string \<Rightarrow> string \<Rightarrow> string \<Rightarrow> json \<Rightarrow> 'w net
     \<Rightarrow> (error + string) \<times> 'w net" where
  "cd_key_retrieval_get_cdkey_status rem user_id cd_key auth_cookie target_region
       game_biz_parameter st =
     (case get_json rem
             \<lparr>url = CDKEY_API_URL,
              params = exchange_params user_id cd_key target_region game_biz_parameter,
              headers = [(''Cookie'', auth_cookie)], timeout = 1\<rparr> st of
        (Inl e, st1) \<Rightarrow> (Inl e, st1)
      | (Inr cd_key_info, st1) \<Rightarrow>
          (case py_getitem cd_key_info ''retcode'' of
             Inl e \<Rightarrow> (Inl e, st1)
           | Inr retcode \<Rightarrow> (status_get retcode, st1)))"

text \<open>\<^verbatim>\<open>cdkey_info_retrieval.py\<close>, \<^verbatim>\<open>get_cdkey_status\<close>: the request goes
  through a session, which carries the headers set on it. A reply is a body only, so
  cookies that a reply would leave in the session are outside the model.\<close>

record session =
  session_headers :: "(string \<times> string) list"

definition cdkey_info_retrieval_get_cdkey_status ::
  "'w remote \<Rightarrow> session \<Rightarrow> json \<Rightarrow> string \<Rightarrow> string \<Rightarrow> json \<Rightarrow> 'w net
     \<Rightarrow> (error + string) \<times> 'w net" where
  "cdkey_info_retrieval_get_cdkey_status rem sess user_id cd_key target_region
       game_biz_parameter st =
     (case get_json rem
             \<lparr>url = CDKEY_API_URL,
              params = exchange_params user_id cd_key target_region game_biz_parameter,
              headers = session_headers sess, timeout = 1\<rparr> st of
        (Inl e, st1) \<Rightarrow> (Inl e, st1)
      | (Inr cd_key_info, st1) \<Rightarrow>
          (case py_getitem cd_key_info ''retcode'' of
             Inl e \<Rightarrow> (Inl e, st1)
           | Inr retcode \<Rightarrow> (status_get retcode, st1)))"

section \<open>Drivers\<close>

text \<open>The role-listing request; the three drivers differ in headers and timeout only.\<close>

definition roles_params :: "string \<Rightarrow> (string \<times> json) list" where
  "roles_params region =
     [(''lang'', JStr ''en''),
      (''region'', JStr region),
      (''game_biz'', JStr ''hk4e_global''),
      (''sLangKey'', JStr ''en-us'')]"

subsection \<open>\<^verbatim>\<open>cdkey.py\<close>: \<^verbatim>\<open>main\<close>\<close>

text \<open>
  The \<^verbatim>\<open>for region in regions\<close> loop. A \<^verbatim>\<open>return\<close> inside the loop ends it with
  \<open>Some\<close> status; falling off the end of the function is Python's \<^verbatim>\<open>None\<close>.
\<close>

fun cdkey_main_loop ::
  "'w remote \<Rightarrow> string \<Rightarrow> string \<Rightarrow> string list \<Rightarrow> 'w net
     \<Rightarrow> (error + string option) \<times> 'w net" where
  "cdkey_main_loop rem cdkey cookie [] st = (Inr None, st)"
| "cdkey_main_loop rem cdkey cookie (region # regions) st =
     (case get_json rem
             \<lparr>url = user_roles_url, params = roles_params region,
              headers = [(''Cookie'', cookie)], timeout = 1\<rparr> st of
        (Inl e, st1) \<Rightarrow> (Inl e, st1)
      | (Inr response, st1) \<Rightarrow>
          (case py_getitem response ''data'' of
             Inl e \<Rightarrow> (Inl e, st1)
           | Inr data \<Rightarrow>
               (case py_getitem data ''list'' of
                  Inl e \<Rightarrow> (Inl e, st1)
                | Inr user_game_roles_data \<Rightarrow>
                    if truthy user_game_roles_data then
                      (case py_getitem0 user_game_roles_data of
                         Inl e \<Rightarrow> (Inl e, st1)
                       | Inr first_user_game_role \<Rightarrow>
                           (case py_getitem first_user_game_role ''game_uid'' of
                              Inl e \<Rightarrow> (Inl e, st1)
                            | Inr game_uid \<Rightarrow>
                                (case py_getitem first_user_game_role ''game_biz'' of
                                   Inl e \<Rightarrow> (Inl e, st1)
                                 | Inr game_biz \<Rightarrow>
                                     (case cdkey_get_cdkey_info rem game_uid cdkey cookie
                                             region game_biz st1 of
                                        (Inl e, st2) \<Rightarrow> (Inl e, st2)
                                      | (Inr cdkey_info, st2) \<Rightarrow>
                                          (Inr (Some cdkey_info), st2)))))
                    else cdkey_main_loop rem cdkey cookie regions st1)))"

definition cdkey_main ::
  "'w remote \<Rightarrow> string \<Rightarrow> string \<Rightarrow> 'w \<Rightarrow> (error + string option) \<times> 'w net" where
  "cdkey_main rem cdkey cookie w =
     cdkey_main_loop rem cdkey cookie [''os_usa'', ''os_euro'', ''os_asia'', ''os_cht'']
       \<lparr>log = [], server = w\<rparr>"

subsection \<open>\<^verbatim>\<open>cd_key_retrieval.py\<close>: \<^verbatim>\<open>main\<close>\<close>

fun cd_key_retrieval_main_loop ::
  "'w remote \<Rightarrow> string \<Rightarrow> string \<Rightarrow> string list \<Rightarrow> 'w net
     \<Rightarrow> (error + string option) \<times> 'w net" where
  "cd_key_retrieval_main_loop rem cd_key auth_cookie [] st = (Inr None, st)"
| "cd_key_retrieval_main_loop rem cd_key auth_cookie (target_region # target_regions) st =
     (case get_json rem
             \<lparr>url = user_roles_url, params = roles_params target_region,
              headers = [(''Cookie'', auth_cookie)], timeout = 1\<rparr> st of
        (Inl e, st1) \<Rightarrow> (Inl e, st1)
      | (Inr response, st1) \<Rightarrow>
          (case py_getitem response ''data'' of
             Inl e \<Rightarrow> (Inl e, st1)
           | Inr data \<Rightarrow>
               if \<not> truthy data then
                 cd_key_retrieval_main_loop rem cd_key auth_cookie target_regions st1
               else
                 (case py_getitem data ''list'' of
                    Inl e \<Rightarrow> (Inl e, st1)
                  | Inr user_game_roles_data \<Rightarrow>
                      if truthy user_game_roles_data then
                        (case py_getitem0 user_game_roles_data of
                           Inl e \<Rightarrow> (Inl e, st1)
                         | Inr first_user_game_role \<Rightarrow>
                             (case py_getitem first_user_game_role ''game_uid'' of
                                Inl e \<Rightarrow> (Inl e, st1)
                              | Inr game_uid \<Rightarrow>
                                  (case py_getitem first_user_game_role ''game_biz'' of
                                     Inl e \<Rightarrow> (Inl e, st1)
                                   | Inr game_biz \<Rightarrow>
                                       (case cd_key_retrieval_get_cdkey_status rem game_uid
                                               cd_key auth_cookie target_region game_biz st1 of
                                          (Inl e, st2) \<Rightarrow> (Inl e, st2)
                                        | (Inr cd_key_status, st2) \<Rightarrow>
                                            (Inr (Some cd_key_status), st2)))))
                      else
                        cd_key_retrieval_main_loop rem cd_key auth_cookie target_regions
                          st1)))"

definition cd_key_retrieval_main ::
  "'w remote \<Rightarrow> string \<Rightarrow> string \<Rightarrow> 'w \<Rightarrow> (error + string option) \<times> 'w net" where
  "cd_key_retrieval_main rem cd_key auth_cookie w =
     cd_key_retrieval_main_loop rem cd_key auth_cookie
       [''os_usa'', ''os_euro'', ''os_asia'', ''os_cht''] \<lparr>log = [], server = w\<rparr>"

subsection \<open>\<^verbatim>\<open>cdkey_info_retrieval.py\<close>: \<^verbatim>\<open>main\<close>\<close>

text \<open>
  \<^verbatim>\<open>cd_key_statuses\<close> is \<^verbatim>\<open>None\<close> or a dict from region to a dict from
  \<^verbatim>\<open>game_uid\<close> to status. The inner loop is the body of
  \<^verbatim>\<open>for user_game_role in user_game_roles_data\<close>; the three statements after the call
  are \<^verbatim>\<open>if not cd_key_statuses\<close>, \<^verbatim>\<open>if not target_region in cd_key_statuses\<close>
  and the store, which hashes \<^verbatim>\<open>game_uid\<close>. The \<^verbatim>\<open>print\<close> calls write to
  standard output only and are left out.
\<close>

type_synonym statuses = "(string \<times> (pykey \<times> string) list) list"

fun roles_loop ::
  "'w remote \<Rightarrow> session \<Rightarrow> string \<Rightarrow> string \<Rightarrow> json list \<Rightarrow> statuses option \<Rightarrow> 'w net
     \<Rightarrow> (error + statuses option) \<times> 'w net" where
  "roles_loop rem sess cd_key target_region [] cd_key_statuses st = (Inr cd_key_statuses, st)"
| "roles_loop rem sess cd_key target_region (user_game_role # rest) cd_key_statuses st =
     (case py_getitem user_game_role ''game_uid'' of
        Inl e \<Rightarrow> (Inl e, st)
      | Inr game_uid \<Rightarrow>
          (case py_getitem user_game_role ''game_biz'' of
             Inl e \<Rightarrow> (Inl e, st)
           | Inr game_biz \<Rightarrow>
               (case cdkey_info_retrieval_get_cdkey_status rem sess game_uid cd_key
                       target_region game_biz st of
                  (Inl e, st1) \<Rightarrow> (Inl e, st1)
                | (Inr cd_key_status, st1) \<Rightarrow>
                    (let d0 = (case cd_key_statuses of
                                 None \<Rightarrow> []
                               | Some d \<Rightarrow> if d = [] then [] else d);
                         d1 = (if target_region \<notin> set (map fst d0)
                               then dict_set d0 target_region [] else d0)
                     in case map_of d1 target_region of
                          None \<Rightarrow> (Inl KeyError, st1)
                        | Some inner \<Rightarrow>
                            (case hash_key game_uid of
                               Inl e \<Rightarrow> (Inl e, st1)
                             | Inr k \<Rightarrow>
                                 roles_loop rem sess cd_key target_region rest
                                   (Some (dict_set d1 target_region
                                            (dict_set inner k cd_key_status)))
                                   st1)))))"

fun cdkey_info_retrieval_main_loop ::
  "'w remote \<Rightarrow> session \<Rightarrow> string \<Rightarrow> string list \<Rightarrow> statuses option \<Rightarrow> 'w net
     \<Rightarrow> (error + statuses option) \<times> 'w net" where
  "cdkey_info_retrieval_main_loop rem sess cd_key [] cd_key_statuses st =
     (Inr cd_key_statuses, st)"
| "cdkey_info_retrieval_main_loop rem sess cd_key (target_region # target_regions)
       cd_key_statuses st =
     (case get_json rem
             \<lparr>url = user_roles_url, params = roles_params target_region,
              headers = session_headers sess, timeout = 2\<rparr> st of
        (Inl e, st1) \<Rightarrow> (Inl e, st1)
      | (Inr response, st1) \<Rightarrow>
          (case py_getitem response ''data'' of
             Inl e \<Rightarrow> (Inl e, st1)
           | Inr data \<Rightarrow>
               if \<not> truthy data then
                 cdkey_info_retrieval_main_loop rem sess cd_key target_regions
                   cd_key_statuses st1
               else
                 (case py_getitem data ''list'' of
                    Inl e \<Rightarrow> (Inl e, st1)
                  | Inr user_game_roles_data \<Rightarrow>
                      (case py_iter user_game_roles_data of
                         Inl e \<Rightarrow> (Inl e, st1)
                       | Inr roles \<Rightarrow>
                           (case roles_loop rem sess cd_key target_region roles
                                   cd_key_statuses st1 of
                              (Inl e, st2) \<Rightarrow> (Inl e, st2)
                            | (Inr cd_key_statuses', st2) \<Rightarrow>
                                cdkey_info_retrieval_main_loop rem sess cd_key
                                  target_regions cd_key_statuses' st2)))))"

definition cdkey_info_retrieval_main ::
  "'w remote \<Rightarrow> string \<Rightarrow> string \<Rightarrow> 'w \<Rightarrow> (error + statuses option) \<times> 'w net" where
  "cdkey_info_retrieval_main rem cd_key auth_cookie w =
     cdkey_info_retrieval_main_loop rem \<lparr>session_headers = [(''Cookie'', auth_cookie)]\<rparr>
       cd_key [''os_usa'', ''os_euro'', ''os_asia'', ''os_cht''] None
       \<lparr>log = [], server = w\<rparr>"

section \<open>Auxiliary definitions\<close>

text \<open>
  The requests of the two endpoints, the outcome of a redemption call as a function of
  its reply, and a common form of the redemption call and of the two early-return
  loops, which differ only in how the role-listing response is read. None of these is
  in the source; the lemmas of the next section relate them to the definitions above.
\<close>

definition exchange_request ::
  "(string \<times> string) list \<Rightarrow> json \<Rightarrow> string \<Rightarrow> string \<Rightarrow> json \<Rightarrow> request" where
  "exchange_request hdrs uid cdkey region biz =
     \<lparr>url = CDKEY_API_URL, params = exchange_params uid cdkey region biz,
      headers = hdrs, timeout = 1\<rparr>"

definition roles_request :: "(string \<times> string) list \<Rightarrow> nat \<Rightarrow> string \<Rightarrow> request" where
  "roles_request hdrs t region =
     \<lparr>url = user_roles_url, params = roles_params region, headers = hdrs, timeout = t\<rparr>"

definition reply_status :: "reply \<Rightarrow> error + string" where
  "reply_status rep =
     (case reply_json rep of
        Inl e \<Rightarrow> Inl e
      | Inr info \<Rightarrow>
          (case py_getitem info ''retcode'' of
             Inl e \<Rightarrow> Inl e
           | Inr retcode \<Rightarrow> status_get retcode))"

definition exchange ::
  "'w remote \<Rightarrow> (string \<times> string) list \<Rightarrow> json \<Rightarrow> string \<Rightarrow> string \<Rightarrow> json \<Rightarrow> 'w net
     \<Rightarrow> (error + string) \<times> 'w net" where
  "exchange rem hdrs uid cdkey region biz st =
     (case rem (exchange_request hdrs uid cdkey region biz) (server st) of (rep, w) \<Rightarrow>
        (reply_status rep,
         \<lparr>log = log st @ [(exchange_request hdrs uid cdkey region biz, rep)], server = w\<rparr>))"

datatype decision = Raise error | Skip | Redeem json json

definition first_role :: "json \<Rightarrow> decision" where
  "first_role user_game_roles_data =
     (if truthy user_game_roles_data then
        (case py_getitem0 user_game_roles_data of
           Inl e \<Rightarrow> Raise e
         | Inr r \<Rightarrow>
             (case py_getitem r ''game_uid'' of
                Inl e \<Rightarrow> Raise e
              | Inr game_uid \<Rightarrow>
                  (case py_getitem r ''game_biz'' of
                     Inl e \<Rightarrow> Raise e
                   | Inr game_biz \<Rightarrow> Redeem game_uid game_biz)))
      else Skip)"

definition cdkey_decide :: "json \<Rightarrow> decision" where
  "cdkey_decide response =
     (case py_getitem response ''data'' of
        Inl e \<Rightarrow> Raise e
      | Inr data \<Rightarrow>
          (case py_getitem data ''list'' of
             Inl e \<Rightarrow> Raise e
           | Inr l \<Rightarrow> first_role l))"

definition cd_key_retrieval_decide :: "json \<Rightarrow> decision" where
  "cd_key_retrieval_decide response =
     (case py_getitem response ''data'' of
        Inl e \<Rightarrow> Raise e
      | Inr data \<Rightarrow>
          if \<not> truthy data then Skip
          else (case py_getitem data ''list'' of
                  Inl e \<Rightarrow> Raise e
                | Inr l \<Rightarrow> first_role l))"

fun early_loop ::
  "(json \<Rightarrow> decision) \<Rightarrow> 'w remote \<Rightarrow> (string \<times> string) list \<Rightarrow> nat \<Rightarrow> string
     \<Rightarrow> string list \<Rightarrow> 'w net \<Rightarrow> (error + string option) \<times> 'w net" where
  "early_loop dec rem hdrs t cdkey [] st = (Inr None, st)"
| "early_loop dec rem hdrs t cdkey (r # rs) st =
     (case rem (roles_request hdrs t r) (server st) of (rep, w) \<Rightarrow>
        (case reply_json rep of
           Inl e \<Rightarrow> (Inl e, \<lparr>log = log st @ [(roles_request hdrs t r, rep)], server = w\<rparr>)
         | Inr response \<Rightarrow>
             (case dec response of
                Raise e \<Rightarrow>
                  (Inl e, \<lparr>log = log st @ [(roles_request hdrs t r, rep)], server = w\<rparr>)
              | Skip \<Rightarrow>
                  early_loop dec rem hdrs t cdkey rs
                    \<lparr>log = log st @ [(roles_request hdrs t r, rep)], server = w\<rparr>
              | Redeem uid biz \<Rightarrow>
                  (case exchange rem hdrs uid cdkey r biz
                          \<lparr>log = log st @ [(roles_request hdrs t r, rep)], server = w\<rparr> of
                     (res, st2) \<Rightarrow> (map_sum id Some res, st2)))))"

text \<open>The table of the specification (section 4.2), written as a function of the code.\<close>

definition retcode_label :: "int \<Rightarrow> string" where
  "retcode_label i =
     (if i = 0 then ''success''
      else if i = - 2001 then ''expired''
      else if i = - 2003 then ''invalid''
      else if i = - 2017 then ''already in use''
      else ''unknown'')"

text \<open>A remote side that answers every request with the same body.\<close>

definition const_remote :: "json \<Rightarrow> unit remote" where
  "const_remote b q w = (Body b, w)"

text \<open>
  What \<^verbatim>\<open>cdkey_info_retrieval.py\<close> reads from a role-listing response before its
  inner loop: the records to visit, none when the data payload is falsy. This is the
  Role Lookup of the specification (section 4.1).
\<close>

definition role_listing :: "json \<Rightarrow> error + json list" where
  "role_listing response =
     (case py_getitem response ''data'' of
        Inl e \<Rightarrow> Inl e
      | Inr data \<Rightarrow>
          if \<not> truthy data then Inr []
          else (case py_getitem data ''list'' of
                  Inl e \<Rightarrow> Inl e
                | Inr user_game_roles_data \<Rightarrow> py_iter user_game_roles_data))"

definition role_fields :: "json \<Rightarrow> error + json \<times> json" where
  "role_fields user_game_role =
     (case py_getitem user_game_role ''game_uid'' of
        Inl e \<Rightarrow> Inl e
      | Inr game_uid \<Rightarrow>
          (case py_getitem user_game_role ''game_biz'' of
             Inl e \<Rightarrow> Inl e
           | Inr game_biz \<Rightarrow> Inr (game_uid, game_biz)))"

text \<open>The three statements that record a status in \<^verbatim>\<open>cd_key_statuses\<close>.\<close>

definition store :: "statuses option \<Rightarrow> string \<Rightarrow> json \<Rightarrow> string \<Rightarrow> error + statuses" where
  "store cd_key_statuses target_region game_uid cd_key_status =
     (let d0 = (case cd_key_statuses of None \<Rightarrow> [] | Some d \<Rightarrow> if d = [] then [] else d);
          d1 = (if target_region \<notin> set (map fst d0)
                then dict_set d0 target_region [] else d0)
      in case map_of d1 target_region of
           None \<Rightarrow> Inl KeyError
         | Some inner \<Rightarrow>
             (case hash_key game_uid of
                Inl e \<Rightarrow> Inl e
              | Inr k \<Rightarrow> Inr (dict_set d1 target_region (dict_set inner k cd_key_status))))"

text \<open>Reading the log: the region and the account of a request, the failure of a reply.\<close>

definition region_of :: "request \<Rightarrow> string" where
  "region_of q = (case map_of (params q) ''region'' of Some (JStr r) \<Rightarrow> r | _ \<Rightarrow> [])"

definition uid_of :: "request \<Rightarrow> json" where
  "uid_of q = (case map_of (params q) ''uid'' of Some u \<Rightarrow> u | None \<Rightarrow> JNull)"

fun reply_error :: "reply \<Rightarrow> error option" where
  "reply_error NoReply = Some RequestException"
| "reply_error NotJSON = Some JSONDecodeError"
| "reply_error (Body j) = None"

fun err_of :: "error + 'a \<Rightarrow> error option" where
  "err_of (Inl e) = Some e"
| "err_of (Inr x) = None"

text \<open>Every failed reply of the log is its last entry, and its error is the outcome.\<close>

fun fatal_last :: "(request \<times> reply) list \<Rightarrow> error option \<Rightarrow> bool" where
  "fatal_last [] r = True"
| "fatal_last (c # cs) r =
     (case reply_error (snd c) of
        None \<Rightarrow> fatal_last cs r
      | Some e \<Rightarrow> cs = [] \<and> r = Some e)"

text \<open>
  The (region, account) pairs of the log: those the role listings showed, one per
  role record that carries an account id, and those a redemption call was made for.
\<close>

definition role_uids :: "json list \<Rightarrow> json list" where
  "role_uids roles =
     concat (map (\<lambda>r. case role_fields r of Inl e \<Rightarrow> [] | Inr ub \<Rightarrow> [fst ub]) roles)"

definition reply_uids :: "reply \<Rightarrow> json list" where
  "reply_uids rep =
     (case rep of
        Body response \<Rightarrow>
          (case role_listing response of Inl e \<Rightarrow> [] | Inr roles \<Rightarrow> role_uids roles)
      | _ \<Rightarrow> [])"

definition discovered :: "(request \<times> reply) list \<Rightarrow> (string \<times> json) list" where
  "discovered lg =
     concat (map (\<lambda>c. if url (fst c) = user_roles_url
                       then map (Pair (region_of (fst c))) (reply_uids (snd c)) else []) lg)"

definition redeemed :: "(request \<times> reply) list \<Rightarrow> (string \<times> json) list" where
  "redeemed lg =
     concat (map (\<lambda>c. if url (fst c) = CDKEY_API_URL
                       then [(region_of (fst c), uid_of (fst c))] else []) lg)"

text \<open>A remote side that replays a fixed list of replies, whatever the requests.\<close>

fun replay :: "reply list remote" where
  "replay q [] = (NoReply, [])"
| "replay q (rep # reps) = (rep, reps)"

text \<open>A remote side whose reply to a request does not depend on the server's state.\<close>

definition answers :: "'w remote \<Rightarrow> request \<Rightarrow> reply \<Rightarrow> bool" where
  "answers rem q rep = (\<forall>w. fst (rem q w) = rep)"

text \<open>Sample bodies and remote sides: a body without data, a role record, a role
  listing, and a remote side made of one role listing per region and one redemption
  body.\<close>

definition no_data_body :: json where
  "no_data_body =
     JObj [(''retcode'', JInt (- 100)), (''message'', JStr ''Please login''),
           (''data'', JNull)]"

definition role :: "int \<Rightarrow> json" where
  "role uid = JObj [(''game_biz'', JStr ''hk4e_global''), (''game_uid'', JInt uid)]"

definition roles_body :: "json list \<Rightarrow> json" where
  "roles_body rs =
     JObj [(''retcode'', JInt 0), (''message'', JStr ''OK''),
           (''data'', JObj [(''list'', JList rs)])]"

definition mock_remote :: "(string \<Rightarrow> json) \<Rightarrow> json \<Rightarrow> unit remote" where
  "mock_remote roles info q w =
     (if url q = user_roles_url then (Body (roles (region_of q)), w) else (Body info, w))"

definition euro_only :: "string \<Rightarrow> json" where
  "euro_only r = (if r = ''os_euro'' then roles_body [role 800000001] else no_data_body)"

text \<open>A remote side that answers its first request and fails from then on.\<close>

definition flaky :: "nat remote" where
  "flaky q n = (if n = 0 then (Body (roles_body []), Suc n) else (NoReply, Suc n))"

text \<open>A remote side whose redemption endpoint succeeds once, then says the code is in use;
  it lists the same account twice in one region.\<close>

definition used_once :: "bool remote" where
  "used_once q used =
     (if url q = user_roles_url
      then (Body (if region_of q = ''os_asia'' then roles_body [role 7, role 7]
                  else no_data_body), used)
      else (Body (JObj [(''retcode'', JInt (if used then - 2017 else 0))]), True))"



text \<open>The result of an early-return driver that returns the outcome of a redemption
  call: the status under \<open>Some\<close>, or the exception.\<close>

definition wrap :: "error + string \<Rightarrow> error + string option" where
  "wrap res = (case res of Inl e \<Rightarrow> Inl e | Inr s \<Rightarrow> Inr (Some s))"

text \<open>A remote side that lists two accounts in one region and whose redemption endpoint
  never replies; and one that lists two accounts, accepts the code once and then
  reports it as used.\<close>

definition no_exchange :: "unit remote" where
  "no_exchange q w =
     (if url q = user_roles_url
      then (Body (if region_of q = ''os_usa'' then roles_body [role 1, role 2]
                  else no_data_body), w)
      else (NoReply, w))"

definition first_ok_then_used :: "bool remote" where
  "first_ok_then_used q used =
     (if url q = user_roles_url
      then (Body (if region_of q = ''os_usa'' then roles_body [role 11, role 12]
                  else no_data_body), used)
      else (Body (JObj [(''retcode'', JInt (if used then - 2017 else 0))]), True))"

section \<open>The common forms\<close>

lemma cdkey_get_cdkey_info_exchange:
  "cdkey_get_cdkey_info rem uid cdkey cookie region biz st =
     exchange rem [(''Cookie'', cookie)] uid cdkey region biz st"
  by (simp add: cdkey_get_cdkey_info_def exchange_def exchange_request_def get_json_def
      reply_status_def URL_def CDKEY_API_URL_def split: prod.splits sum.splits)

lemma cd_key_retrieval_get_cdkey_status_exchange:
  "cd_key_retrieval_get_cdkey_status rem uid cdkey cookie region biz st =
     exchange rem [(''Cookie'', cookie)] uid cdkey region biz st"
  by (simp add: cd_key_retrieval_get_cdkey_status_def exchange_def exchange_request_def
      get_json_def reply_status_def split: prod.splits sum.splits)

lemma cdkey_info_retrieval_get_cdkey_status_exchange:
  "cdkey_info_retrieval_get_cdkey_status rem sess uid cdkey region biz st =
     exchange rem (session_headers sess) uid cdkey region biz st"
  by (simp add: cdkey_info_retrieval_get_cdkey_status_def exchange_def exchange_request_def
      get_json_def reply_status_def split: prod.splits sum.splits)

lemma cdkey_main_loop_early:
  "cdkey_main_loop rem cdkey cookie regions st =
     early_loop cdkey_decide rem [(''Cookie'', cookie)] 1 cdkey regions st"
proof (induction regions arbitrary: st)
  case Nil
  show ?case by simp
next
  case (Cons r rs)
  show ?case
    by (simp add: Cons.IH cdkey_get_cdkey_info_exchange get_json_def roles_request_def
        cdkey_decide_def first_role_def split: prod.splits sum.splits)
qed

lemma cd_key_retrieval_main_loop_early:
  "cd_key_retrieval_main_loop rem cdkey cookie regions st =
     early_loop cd_key_retrieval_decide rem [(''Cookie'', cookie)] 1 cdkey regions st"
proof (induction regions arbitrary: st)
  case Nil
  show ?case by simp
next
  case (Cons r rs)
  show ?case
    by (simp add: Cons.IH cd_key_retrieval_get_cdkey_status_exchange get_json_def
        roles_request_def cd_key_retrieval_decide_def first_role_def
        split: prod.splits sum.splits)
qed

lemma status_get_int: "status_get (JInt i) = Inr (retcode_label i)"
  by (simp add: status_get_def status_table_def retcode_label_def)

lemma exchange_reply:
  assumes "fst (rem (exchange_request hdrs uid cdkey region biz) (server st)) = Body body"
  shows "fst (exchange rem hdrs uid cdkey region biz st) =
           (case py_getitem body ''retcode'' of Inl e \<Rightarrow> Inl e | Inr rc \<Rightarrow> status_get rc)"
  using assms
  by (cases "rem (exchange_request hdrs uid cdkey region biz) (server st)")
    (simp add: exchange_def reply_status_def)

section \<open>Redemption check: the label of a code\<close>

text \<open>
  C1. Whatever the arguments and the state of the server, when the redemption
  endpoint answers the request of a redemption check with a body that carries an
  integer \<^verbatim>\<open>retcode\<close>, the check returns the label of the specification's table
  for it: 0 is success, -2001 expired, -2003 invalid, -2017 already in use, any other
  integer unknown. This holds for each of the three redemption checks, on the
  request that check sends.
\<close>

theorem redemption_check_label:
  assumes "py_getitem body ''retcode'' = Inr (JInt i)"
  shows "(fst (rem \<lparr>url = URL, params = exchange_params uid cdkey region biz,
                    headers = [(''Cookie'', cookie)], timeout = 1\<rparr> (server st)) = Body body
          \<longrightarrow> fst (cdkey_get_cdkey_info rem uid cdkey cookie region biz st)
                = Inr (retcode_label i))
       \<and> (fst (rem \<lparr>url = CDKEY_API_URL, params = exchange_params uid cdkey region biz,
                    headers = [(''Cookie'', cookie)], timeout = 1\<rparr> (server st)) = Body body
          \<longrightarrow> fst (cd_key_retrieval_get_cdkey_status rem uid cdkey cookie region biz st)
                = Inr (retcode_label i))
       \<and> (fst (rem \<lparr>url = CDKEY_API_URL, params = exchange_params uid cdkey region biz,
                    headers = session_headers sess, timeout = 1\<rparr> (server st)) = Body body
          \<longrightarrow> fst (cdkey_info_retrieval_get_cdkey_status rem sess uid cdkey region biz st)
                = Inr (retcode_label i))"
proof -
  have u: "URL = CDKEY_API_URL" by (simp add: URL_def CDKEY_API_URL_def)
  note r = exchange_reply [unfolded exchange_request_def]
  show ?thesis
    using assms
      r [where rem = rem and uid = uid and cdkey = cdkey and region = region and biz = biz
          and st = st and body = body and hdrs = "[(''Cookie'', cookie)]"]
      r [where rem = rem and uid = uid and cdkey = cdkey and region = region and biz = biz
          and st = st and body = body and hdrs = "session_headers sess"]
    by (simp add: cdkey_get_cdkey_info_exchange cd_key_retrieval_get_cdkey_status_exchange
        cdkey_info_retrieval_get_cdkey_status_exchange status_get_int u)
qed

theorem redemption_check_label_witness:
  "fst (cdkey_get_cdkey_info (const_remote (JObj [(''retcode'', JInt (- 2017))]))
          (JInt 7) ''K'' ''c'' ''os_usa'' (JStr ''hk4e_global'') \<lparr>log = [], server = ()\<rparr>)
     = Inr ''already in use''
   \<and> fst (cdkey_get_cdkey_info (const_remote (JObj [(''retcode'', JInt (- 2001))]))
          (JInt 7) ''K'' ''c'' ''os_usa'' (JStr ''hk4e_global'') \<lparr>log = [], server = ()\<rparr>)
     = Inr ''expired''
   \<and> fst (cd_key_retrieval_get_cdkey_status (const_remote (JObj [(''retcode'', JInt 12345)]))
          (JInt 7) ''K'' ''c'' ''os_usa'' (JStr ''hk4e_global'') \<lparr>log = [], server = ()\<rparr>)
     = Inr ''unknown''
   \<and> fst (cd_key_retrieval_get_cdkey_status (const_remote (JObj [(''retcode'', JInt (- 2003))]))
          (JInt 7) ''K'' ''c'' ''os_usa'' (JStr ''hk4e_global'') \<lparr>log = [], server = ()\<rparr>)
     = Inr ''invalid''
   \<and> fst (cdkey_info_retrieval_get_cdkey_status (const_remote (JObj [(''retcode'', JInt 0)]))
          \<lparr>session_headers = [(''Cookie'', ''c'')]\<rparr>
          (JInt 7) ''K'' ''os_usa'' (JStr ''hk4e_global'') \<lparr>log = [], server = ()\<rparr>)
     = Inr ''success''
   \<and> fst (cdkey_info_retrieval_get_cdkey_status (const_remote (JObj [(''retcode'', JInt (- 1))]))
          \<lparr>session_headers = [(''Cookie'', ''c'')]\<rparr>
          (JInt 7) ''K'' ''os_usa'' (JStr ''hk4e_global'') \<lparr>log = [], server = ()\<rparr>)
     = Inr ''unknown''"
  using
    redemption_check_label [of "JObj [(''retcode'', JInt (- 2017))]" "- 2017"
      "const_remote (JObj [(''retcode'', JInt (- 2017))])" "JInt 7" "''K''" "''os_usa''"
      "JStr ''hk4e_global''" "''c''" "\<lparr>log = [], server = ()\<rparr>"]
    redemption_check_label [of "JObj [(''retcode'', JInt (- 2001))]" "- 2001"
      "const_remote (JObj [(''retcode'', JInt (- 2001))])" "JInt 7" "''K''" "''os_usa''"
      "JStr ''hk4e_global''" "''c''" "\<lparr>log = [], server = ()\<rparr>"]
    redemption_check_label [of "JObj [(''retcode'', JInt 12345)]" "12345"
      "const_remote (JObj [(''retcode'', JInt 12345)])" "JInt 7" "''K''" "''os_usa''"
      "JStr ''hk4e_global''" "''c''" "\<lparr>log = [], server = ()\<rparr>"]
    redemption_check_label [of "JObj [(''retcode'', JInt (- 2003))]" "- 2003"
      "const_remote (JObj [(''retcode'', JInt (- 2003))])" "JInt 7" "''K''" "''os_usa''"
      "JStr ''hk4e_global''" "''c''" "\<lparr>log = [], server = ()\<rparr>"]
    redemption_check_label [of "JObj [(''retcode'', JInt 0)]" "0"
      "const_remote (JObj [(''retcode'', JInt 0)])" "JInt 7" "''K''" "''os_usa''"
      "JStr ''hk4e_global''" "''c''" "\<lparr>log = [], server = ()\<rparr>"
      "\<lparr>session_headers = [(''Cookie'', ''c'')]\<rparr>"]
    redemption_check_label [of "JObj [(''retcode'', JInt (- 1))]" "- 1"
      "const_remote (JObj [(''retcode'', JInt (- 1))])" "JInt 7" "''K''" "''os_usa''"
      "JStr ''hk4e_global''" "''c''" "\<lparr>log = [], server = ()\<rparr>"
      "\<lparr>session_headers = [(''Cookie'', ''c'')]\<rparr>"]
  by (simp add: const_remote_def retcode_label_def)

section \<open>A role listing without data\<close>

text \<open>
  C2. The role-listing endpoint answers every region with a body whose data payload
  is null. \<^verbatim>\<open>cdkey.py\<close> subscripts the payload without looking at it
  (\<^verbatim>\<open>response["data"]["list"]\<close>): its run ends with a TypeError at the first
  region, after one call. The two other drivers test \<^verbatim>\<open>if not data\<close> first: they
  visit the four regions in order, make no redemption call and return None.
\<close>

theorem cdkey_main_raises_on_absent_data:
  "cdkey_main (const_remote no_data_body) ''GENSHINGIFT'' ''c'' ()
     = (Inl TypeError,
        \<lparr>log = [(roles_request [(''Cookie'', ''c'')] 1 ''os_usa'', Body no_data_body)],
         server = ()\<rparr>)
   \<and> fst (cd_key_retrieval_main (const_remote no_data_body) ''GENSHINGIFT'' ''c'' ()) = Inr None
   \<and> map (\<lambda>c. region_of (fst c))
        (log (snd (cd_key_retrieval_main (const_remote no_data_body) ''GENSHINGIFT'' ''c'' ())))
       = [''os_usa'', ''os_euro'', ''os_asia'', ''os_cht'']
   \<and> fst (cdkey_info_retrieval_main (const_remote no_data_body) ''GENSHINGIFT'' ''c'' ())
       = Inr None
   \<and> map (\<lambda>c. region_of (fst c))
        (log (snd (cdkey_info_retrieval_main (const_remote no_data_body) ''GENSHINGIFT''
                     ''c'' ())))
       = [''os_usa'', ''os_euro'', ''os_asia'', ''os_cht'']"
  by (simp add: cdkey_main_def cd_key_retrieval_main_def cdkey_info_retrieval_main_def
      get_json_def const_remote_def no_data_body_def roles_request_def region_of_def
      roles_params_def)

text \<open>
  C3. The first region has no data payload and the second lists one account.
  \<^verbatim>\<open>cd_key_retrieval.py\<close> skips the first region and returns the status of that
  account; \<^verbatim>\<open>cdkey.py\<close> raises at the first region and produces no result.
\<close>

theorem cdkey_main_no_result_after_absent_data:
  "fst (cdkey_main (mock_remote euro_only (JObj [(''retcode'', JInt 0)])) ''GENSHINGIFT''
          ''c'' ())
     = Inl TypeError
   \<and> fst (cd_key_retrieval_main (mock_remote euro_only (JObj [(''retcode'', JInt 0)]))
            ''GENSHINGIFT'' ''c'' ())
     = Inr (Some ''success'')"
  by (simp add: cdkey_main_def cd_key_retrieval_main_def get_json_def mock_remote_def
      euro_only_def no_data_body_def roles_body_def role_def region_of_def roles_params_def
      cd_key_retrieval_get_cdkey_status_def URL_def CDKEY_API_URL_def user_roles_url_def
      status_get_def status_table_def)

text \<open>
  C8. No region has a data payload. \<^verbatim>\<open>cd_key_retrieval.py\<close> falls off the end of
  its loop and returns None; \<^verbatim>\<open>cdkey.py\<close> does not return None, it raises.
\<close>

theorem cdkey_main_not_None_on_absent_data:
  "fst (cdkey_main (const_remote no_data_body) ''GENSHINGIFT'' ''c'' ()) = Inl TypeError
   \<and> fst (cdkey_main (const_remote no_data_body) ''GENSHINGIFT'' ''c'' ()) \<noteq> Inr None
   \<and> fst (cd_key_retrieval_main (const_remote no_data_body) ''GENSHINGIFT'' ''c'' ())
       = Inr None"
  by (simp add: cdkey_main_def cd_key_retrieval_main_def get_json_def const_remote_def
      no_data_body_def)

section \<open>The loops of the exhaustive driver, step by step\<close>

lemma roles_loop_step:
  "roles_loop rem sess cd_key region (r # rest) acc st =
     (case role_fields r of
        Inl e \<Rightarrow> (Inl e, st)
      | Inr ub \<Rightarrow>
          (case exchange rem (session_headers sess) (fst ub) cd_key region (snd ub) st of
             (Inl e, st1) \<Rightarrow> (Inl e, st1)
           | (Inr s, st1) \<Rightarrow>
               (case store acc region (fst ub) s of
                  Inl e \<Rightarrow> (Inl e, st1)
                | Inr d \<Rightarrow> roles_loop rem sess cd_key region rest (Some d) st1)))"
  by (simp add: role_fields_def store_def cdkey_info_retrieval_get_cdkey_status_exchange
      Let_def split: sum.splits prod.splits option.splits)

lemma cdkey_info_retrieval_main_loop_step:
  "cdkey_info_retrieval_main_loop rem sess cd_key (r # rs) acc st =
     (case rem (roles_request (session_headers sess) 2 r) (server st) of (rep, w) \<Rightarrow>
        (case reply_json rep of
           Inl e \<Rightarrow>
             (Inl e, \<lparr>log = log st @ [(roles_request (session_headers sess) 2 r, rep)],
                      server = w\<rparr>)
         | Inr response \<Rightarrow>
             (case role_listing response of
                Inl e \<Rightarrow>
                  (Inl e, \<lparr>log = log st @ [(roles_request (session_headers sess) 2 r, rep)],
                           server = w\<rparr>)
              | Inr roles \<Rightarrow>
                  (case roles_loop rem sess cd_key r roles acc
                          \<lparr>log = log st @ [(roles_request (session_headers sess) 2 r, rep)],
                           server = w\<rparr> of
                     (Inl e, st2) \<Rightarrow> (Inl e, st2)
                   | (Inr acc', st2) \<Rightarrow>
                       cdkey_info_retrieval_main_loop rem sess cd_key rs acc' st2))))"
  by (simp add: role_listing_def get_json_def roles_request_def
      split: sum.splits prod.splits)

declare roles_loop.simps(2) [simp del]

declare cdkey_info_retrieval_main_loop.simps(2) [simp del]

section \<open>Failures of the remote side\<close>

lemma fatal_last_snoc:
  "fatal_last l None \<Longrightarrow> (\<And>e. reply_error rep = Some e \<Longrightarrow> r = Some e)
     \<Longrightarrow> fatal_last (l @ [(q, rep)]) r"
  by (induction l) (auto split: option.splits)

lemma fatal_last_clean: "fatal_last l None \<Longrightarrow> fatal_last l r"
  by (induction l) (auto split: option.splits)

lemma fatal_last_nth:
  "fatal_last l r \<Longrightarrow> i < length l \<Longrightarrow> reply_error (snd (l ! i)) = Some e
     \<Longrightarrow> r = Some e \<and> Suc i = length l"
proof (induction l arbitrary: i)
  case Nil
  then show ?case by simp
next
  case (Cons c cs)
  show ?case
  proof (cases i)
    case 0
    with Cons.prems show ?thesis by (simp split: option.splits)
  next
    case (Suc j)
    with Cons.prems have "reply_error (snd c) = None"
      by (auto split: option.splits)
    with Cons.prems Suc Cons.IH [of j] show ?thesis by simp
  qed
qed

lemma reply_json_error: "reply_json rep = Inl e \<longleftrightarrow> reply_error rep = Some e"
  by (cases rep) auto

lemma reply_status_error: "reply_error rep = Some e \<Longrightarrow> reply_status rep = Inl e"
  by (cases rep) (auto simp: reply_status_def)

lemma exchange_fatal_last:
  assumes "fatal_last (log st) None" "exchange rem hdrs uid cdkey region biz st = (res, st')"
  shows "fatal_last (log st') (err_of res)"
proof -
  obtain rep w where rw: "rem (exchange_request hdrs uid cdkey region biz) (server st) = (rep, w)"
    by (cases "rem (exchange_request hdrs uid cdkey region biz) (server st)")
  with assms(2) have res: "res = reply_status rep"
    and st': "log st' = log st @ [(exchange_request hdrs uid cdkey region biz, rep)]"
    by (auto simp: exchange_def)
  show ?thesis
    unfolding st' res using assms(1)
    by (rule fatal_last_snoc) (simp add: reply_status_error)
qed

lemma early_loop_fatal_last:
  "fatal_last (log st) None \<Longrightarrow> early_loop dec rem hdrs t cdkey rs st = (res, st')
     \<Longrightarrow> fatal_last (log st') (err_of res)"
proof (induction rs arbitrary: st)
  case Nil
  then show ?case by auto
next
  case (Cons r rs)
  obtain rep w where rw: "rem (roles_request hdrs t r) (server st) = (rep, w)"
    by (cases "rem (roles_request hdrs t r) (server st)")
  let ?st1 = "\<lparr>log = log st @ [(roles_request hdrs t r, rep)], server = w\<rparr>"
  show ?case
  proof (cases "reply_json rep")
    case (Inl e)
    with Cons.prems rw show ?thesis
      by (auto simp: reply_json_error intro!: fatal_last_snoc)
  next
    case (Inr response)
    then have ok: "reply_error rep = None" by (cases rep) auto
    then have clean: "fatal_last (log ?st1) None"
      using Cons.prems(1) by (auto intro!: fatal_last_snoc)
    show ?thesis
    proof (cases "dec response")
      case (Raise e)
      with Cons.prems rw Inr ok show ?thesis
        by (auto intro!: fatal_last_snoc)
    next
      case Skip
      with Cons.prems rw Inr Cons.IH [OF clean] show ?thesis by auto
    next
      case (Redeem uid biz)
      obtain res2 st2 where ex: "exchange rem hdrs uid cdkey r biz ?st1 = (res2, st2)"
        by (cases "exchange rem hdrs uid cdkey r biz ?st1")
      from exchange_fatal_last [OF clean ex] have "fatal_last (log st2) (err_of res2)" .
      moreover have "err_of (map_sum id Some res2) = err_of res2" by (cases res2) auto
      ultimately show ?thesis
        using Cons.prems(2) rw Inr Redeem ex by auto
    qed
  qed
qed

lemma roles_loop_fatal_last:
  "fatal_last (log st) None \<Longrightarrow> roles_loop rem sess cd_key region roles acc st = (res, st')
     \<Longrightarrow> fatal_last (log st') (err_of res)"
proof (induction roles arbitrary: st acc)
  case Nil
  then show ?case by auto
next
  case (Cons r roles)
  show ?case
  proof (cases "role_fields r")
    case (Inl e)
    with Cons.prems show ?thesis by (auto simp: roles_loop_step fatal_last_clean)
  next
    case (Inr ub)
    obtain res2 st2 where
      ex: "exchange rem (session_headers sess) (fst ub) cd_key region (snd ub) st = (res2, st2)"
      by (cases "exchange rem (session_headers sess) (fst ub) cd_key region (snd ub) st")
    from exchange_fatal_last [OF Cons.prems(1) ex]
    have fl: "fatal_last (log st2) (err_of res2)" .
    show ?thesis
    proof (cases res2)
      case (Inl e)
      with Cons.prems(2) Inr ex fl show ?thesis by (auto simp: roles_loop_step)
    next
      case s: (Inr s)
      with fl have clean: "fatal_last (log st2) None" by simp
      show ?thesis
      proof (cases "store acc region (fst ub) s")
        case (Inl e)
        with Cons.prems(2) Inr ex s clean show ?thesis
          by (auto simp: roles_loop_step fatal_last_clean)
      next
        case d: (Inr d)
        with Cons.prems(2) Inr ex s Cons.IH [OF clean] show ?thesis
          by (auto simp: roles_loop_step)
      qed
    qed
  qed
qed


lemma cdkey_info_retrieval_main_loop_fatal_last:
  "fatal_last (log st) None
     \<Longrightarrow> cdkey_info_retrieval_main_loop rem sess cd_key rs acc st = (res, st')
     \<Longrightarrow> fatal_last (log st') (err_of res)"
proof (induction rs arbitrary: st acc)
  case Nil
  then show ?case by auto
next
  case (Cons r rs)
  let ?q = "roles_request (session_headers sess) 2 r"
  obtain rep w where rw: "rem ?q (server st) = (rep, w)"
    by (cases "rem ?q (server st)")
  let ?st1 = "\<lparr>log = log st @ [(?q, rep)], server = w\<rparr>"
  show ?case
  proof (cases "reply_json rep")
    case (Inl e)
    with Cons.prems rw show ?thesis
      by (auto simp: cdkey_info_retrieval_main_loop_step reply_json_error
          intro!: fatal_last_snoc)
  next
    case (Inr response)
    then have ok: "reply_error rep = None" by (cases rep) auto
    then have clean: "fatal_last (log ?st1) None"
      using Cons.prems(1) by (auto intro!: fatal_last_snoc)
    show ?thesis
    proof (cases "role_listing response")
      case (Inl e)
      with Cons.prems rw Inr clean show ?thesis
        by (auto simp: cdkey_info_retrieval_main_loop_step fatal_last_clean)
    next
      case roles: (Inr roles)
      obtain res2 st2 where
        rl: "roles_loop rem sess cd_key r roles acc ?st1 = (res2, st2)"
        by (cases "roles_loop rem sess cd_key r roles acc ?st1")
      from roles_loop_fatal_last [OF clean rl]
      have fl: "fatal_last (log st2) (err_of res2)" .
      show ?thesis
      proof (cases res2)
        case (Inl e)
        with Cons.prems(2) rw Inr roles rl fl show ?thesis
          by (auto simp: cdkey_info_retrieval_main_loop_step)
      next
        case acc': (Inr acc')
        with fl have "fatal_last (log st2) None" by simp
        from Cons.IH [OF this] Cons.prems(2) rw Inr roles rl acc' show ?thesis
          by (auto simp: cdkey_info_retrieval_main_loop_step)
      qed
    qed
  qed
qed

text \<open>
  C7. In a run of any of the three drivers, a call that got no reply (connection error
  or timeout) or a body that is not JSON is the last call of the run, and the run ends
  with that call's exception: nothing is called after it (no retry, no further
  region) and no status is returned in its place.
\<close>

theorem remote_failure_propagates:
  assumes "i < length lg" and "reply_error (snd (lg ! i)) = Some e"
  shows "(lg = log (snd (cdkey_main rem cdkey cookie w))
          \<longrightarrow> fst (cdkey_main rem cdkey cookie w) = Inl e \<and> Suc i = length lg)
       \<and> (lg = log (snd (cd_key_retrieval_main rem cdkey cookie w))
          \<longrightarrow> fst (cd_key_retrieval_main rem cdkey cookie w) = Inl e \<and> Suc i = length lg)
       \<and> (lg = log (snd (cdkey_info_retrieval_main rem cdkey cookie w))
          \<longrightarrow> fst (cdkey_info_retrieval_main rem cdkey cookie w) = Inl e
              \<and> Suc i = length lg)"
proof -
  have err: "err_of x = Some e \<Longrightarrow> x = Inl e" for x :: "error + 'b"
    by (cases x) auto
  have a: "fatal_last (log (snd (cdkey_main rem cdkey cookie w)))
             (err_of (fst (cdkey_main rem cdkey cookie w)))"
    unfolding cdkey_main_def cdkey_main_loop_early
    by (rule early_loop_fatal_last [OF _ surjective_pairing]) simp
  have b: "fatal_last (log (snd (cd_key_retrieval_main rem cdkey cookie w)))
             (err_of (fst (cd_key_retrieval_main rem cdkey cookie w)))"
    unfolding cd_key_retrieval_main_def cd_key_retrieval_main_loop_early
    by (rule early_loop_fatal_last [OF _ surjective_pairing]) simp
  have c: "fatal_last (log (snd (cdkey_info_retrieval_main rem cdkey cookie w)))
             (err_of (fst (cdkey_info_retrieval_main rem cdkey cookie w)))"
    unfolding cdkey_info_retrieval_main_def
    by (rule cdkey_info_retrieval_main_loop_fatal_last [OF _ surjective_pairing]) simp
  show ?thesis
    using fatal_last_nth [OF a, of i e] fatal_last_nth [OF b, of i e]
      fatal_last_nth [OF c, of i e] assms
    by (auto dest: err)
qed

theorem remote_failure_propagates_witness:
  "fst (cdkey_main flaky ''K'' ''c'' 0) = Inl RequestException
   \<and> length (log (snd (cdkey_main flaky ''K'' ''c'' 0))) = 2
   \<and> fst (cd_key_retrieval_main flaky ''K'' ''c'' 0) = Inl RequestException
   \<and> fst (cdkey_info_retrieval_main flaky ''K'' ''c'' 0) = Inl RequestException"
proof -
  have l1: "log (snd (cdkey_main flaky ''K'' ''c'' 0)) =
     [(roles_request [(''Cookie'', ''c'')] 1 ''os_usa'', Body (roles_body [])),
      (roles_request [(''Cookie'', ''c'')] 1 ''os_euro'', NoReply)]"
    by (simp add: cdkey_main_def get_json_def flaky_def roles_body_def roles_request_def)
  have l2: "log (snd (cd_key_retrieval_main flaky ''K'' ''c'' 0)) =
     [(roles_request [(''Cookie'', ''c'')] 1 ''os_usa'', Body (roles_body [])),
      (roles_request [(''Cookie'', ''c'')] 1 ''os_euro'', NoReply)]"
    by (simp add: cd_key_retrieval_main_def get_json_def flaky_def roles_body_def
        roles_request_def)
  have l3: "log (snd (cdkey_info_retrieval_main flaky ''K'' ''c'' 0)) =
     [(roles_request [(''Cookie'', ''c'')] 2 ''os_usa'', Body (roles_body [])),
      (roles_request [(''Cookie'', ''c'')] 2 ''os_euro'', NoReply)]"
    by (simp add: cdkey_info_retrieval_main_def get_json_def flaky_def roles_body_def
        roles_request_def cdkey_info_retrieval_main_loop.simps(2))
  show ?thesis
    using
      remote_failure_propagates [of 1 "log (snd (cdkey_main flaky ''K'' ''c'' 0))"
        RequestException flaky "''K''" "''c''" 0]
      remote_failure_propagates [of 1 "log (snd (cd_key_retrieval_main flaky ''K'' ''c'' 0))"
        RequestException flaky "''K''" "''c''" 0]
      remote_failure_propagates [of 1
        "log (snd (cdkey_info_retrieval_main flaky ''K'' ''c'' 0))"
        RequestException flaky "''K''" "''c''" 0]
    by (simp add: l1 l2 l3)
qed

section \<open>The outcome is a function of the replies\<close>


lemma exchange_replay:
  assumes "exchange rem hdrs uid cdkey region biz st = (res, st')"
  shows "\<exists>new. log st' = log st @ new \<and>
           (\<forall>l rest. exchange replay hdrs uid cdkey region biz
                        \<lparr>log = l, server = map snd new @ rest\<rparr>
                      = (res, \<lparr>log = l @ new, server = rest\<rparr>))"
proof -
  let ?q = "exchange_request hdrs uid cdkey region biz"
  obtain rep w where rw: "rem ?q (server st) = (rep, w)"
    by (cases "rem ?q (server st)")
  with assms have "log st' = log st @ [(?q, rep)]" and "res = reply_status rep"
    by (auto simp: exchange_def)
  then show ?thesis
    by (intro exI [of _ "[(?q, rep)]"]) (simp add: exchange_def)
qed

lemma early_loop_replay:
  "early_loop dec rem hdrs t cdkey rs st = (res, st')
     \<Longrightarrow> \<exists>new. log st' = log st @ new \<and>
           (\<forall>l rest. early_loop dec replay hdrs t cdkey rs
                        \<lparr>log = l, server = map snd new @ rest\<rparr>
                      = (res, \<lparr>log = l @ new, server = rest\<rparr>))"
proof (induction rs arbitrary: st)
  case Nil
  then show ?case by (intro exI [of _ "[]"]) auto
next
  case (Cons r rs)
  let ?q = "roles_request hdrs t r"
  obtain rep w where rw: "rem ?q (server st) = (rep, w)"
    by (cases "rem ?q (server st)")
  let ?st1 = "\<lparr>log = log st @ [(?q, rep)], server = w\<rparr>"
  show ?case
  proof (cases "reply_json rep")
    case (Inl e)
    with Cons.prems rw show ?thesis
      by (intro exI [of _ "[(?q, rep)]"]) auto
  next
    case (Inr response)
    show ?thesis
    proof (cases "dec response")
      case (Raise e)
      with Cons.prems rw Inr show ?thesis
        by (intro exI [of _ "[(?q, rep)]"]) auto
    next
      case Skip
      with Cons.prems rw Inr have "early_loop dec rem hdrs t cdkey rs ?st1 = (res, st')"
        by simp
      from Cons.IH [OF this] obtain new where
        new: "log st' = log ?st1 @ new"
          "\<And>l rest. early_loop dec replay hdrs t cdkey rs
                        \<lparr>log = l, server = map snd new @ rest\<rparr>
                      = (res, \<lparr>log = l @ new, server = rest\<rparr>)"
        by blast
      show ?thesis
        using new(1) new(2) Inr Skip
        by (intro exI [of _ "(?q, rep) # new"]) simp
    next
      case (Redeem uid biz)
      obtain res2 where ex: "exchange rem hdrs uid cdkey r biz ?st1 = (res2, st')"
        and res: "res = map_sum id Some res2"
        using Cons.prems rw Inr Redeem by (auto split: prod.splits)
      from exchange_replay [OF ex] obtain new where
        new: "log st' = log ?st1 @ new"
          "\<And>l rest. exchange replay hdrs uid cdkey r biz
                        \<lparr>log = l, server = map snd new @ rest\<rparr>
                      = (res2, \<lparr>log = l @ new, server = rest\<rparr>)"
        by blast
      show ?thesis
        using new(1) new(2) Inr Redeem res
        by (intro exI [of _ "(?q, rep) # new"]) simp
    qed
  qed
qed

lemma roles_loop_replay:
  "roles_loop rem sess cd_key region roles acc st = (res, st')
     \<Longrightarrow> \<exists>new. log st' = log st @ new \<and>
           (\<forall>l rest. roles_loop replay sess cd_key region roles acc
                        \<lparr>log = l, server = map snd new @ rest\<rparr>
                      = (res, \<lparr>log = l @ new, server = rest\<rparr>))"
proof (induction roles arbitrary: st acc)
  case Nil
  then show ?case by (intro exI [of _ "[]"]) auto
next
  case (Cons r roles)
  show ?case
  proof (cases "role_fields r")
    case (Inl e)
    with Cons.prems show ?thesis
      by (intro exI [of _ "[]"]) (auto simp: roles_loop_step)
  next
    case (Inr ub)
    obtain res2 st2 where
      ex: "exchange rem (session_headers sess) (fst ub) cd_key region (snd ub) st = (res2, st2)"
      by (cases "exchange rem (session_headers sess) (fst ub) cd_key region (snd ub) st")
    from exchange_replay [OF ex] obtain new1 where
      new1: "log st2 = log st @ new1"
        "\<And>l rest. exchange replay (session_headers sess) (fst ub) cd_key region (snd ub)
                      \<lparr>log = l, server = map snd new1 @ rest\<rparr>
                    = (res2, \<lparr>log = l @ new1, server = rest\<rparr>)"
      by blast
    show ?thesis
    proof (cases res2)
      case (Inl e)
      with Cons.prems Inr ex new1 show ?thesis
        by (intro exI [of _ new1]) (auto simp: roles_loop_step)
    next
      case s: (Inr s)
      show ?thesis
      proof (cases "store acc region (fst ub) s")
        case (Inl e)
        with Cons.prems Inr ex s new1 show ?thesis
          by (intro exI [of _ new1]) (auto simp: roles_loop_step)
      next
        case d: (Inr d)
        with Cons.prems Inr ex s
        have "roles_loop rem sess cd_key region roles (Some d) st2 = (res, st')"
          by (simp add: roles_loop_step)
        from Cons.IH [OF this] obtain new2 where
          new2: "log st' = log st2 @ new2"
            "\<And>l rest. roles_loop replay sess cd_key region roles (Some d)
                          \<lparr>log = l, server = map snd new2 @ rest\<rparr>
                        = (res, \<lparr>log = l @ new2, server = rest\<rparr>)"
          by blast
        show ?thesis
          using new1 new2 Inr s d
          by (intro exI [of _ "new1 @ new2"]) (simp add: roles_loop_step)
      qed
    qed
  qed
qed

lemma cdkey_info_retrieval_main_loop_replay:
  "cdkey_info_retrieval_main_loop rem sess cd_key rs acc st = (res, st')
     \<Longrightarrow> \<exists>new. log st' = log st @ new \<and>
           (\<forall>l rest. cdkey_info_retrieval_main_loop replay sess cd_key rs acc
                        \<lparr>log = l, server = map snd new @ rest\<rparr>
                      = (res, \<lparr>log = l @ new, server = rest\<rparr>))"
proof (induction rs arbitrary: st acc)
  case Nil
  then show ?case by (intro exI [of _ "[]"]) auto
next
  case (Cons r rs)
  let ?q = "roles_request (session_headers sess) 2 r"
  obtain rep w where rw: "rem ?q (server st) = (rep, w)"
    by (cases "rem ?q (server st)")
  let ?st1 = "\<lparr>log = log st @ [(?q, rep)], server = w\<rparr>"
  show ?case
  proof (cases "reply_json rep")
    case (Inl e)
    with Cons.prems rw show ?thesis
      by (intro exI [of _ "[(?q, rep)]"])
        (auto simp: cdkey_info_retrieval_main_loop_step)
  next
    case (Inr response)
    show ?thesis
    proof (cases "role_listing response")
      case (Inl e)
      with Cons.prems rw Inr show ?thesis
        by (intro exI [of _ "[(?q, rep)]"])
          (auto simp: cdkey_info_retrieval_main_loop_step)
    next
      case roles: (Inr roles)
      obtain res2 st2 where rl: "roles_loop rem sess cd_key r roles acc ?st1 = (res2, st2)"
        by (cases "roles_loop rem sess cd_key r roles acc ?st1")
      from roles_loop_replay [OF rl] obtain new1 where
        new1: "log st2 = log ?st1 @ new1"
          "\<And>l rest. roles_loop replay sess cd_key r roles acc
                        \<lparr>log = l, server = map snd new1 @ rest\<rparr>
                      = (res2, \<lparr>log = l @ new1, server = rest\<rparr>)"
        by blast
      show ?thesis
      proof (cases res2)
        case (Inl e)
        with Cons.prems rw Inr roles rl new1 show ?thesis
          by (intro exI [of _ "(?q, rep) # new1"])
            (auto simp: cdkey_info_retrieval_main_loop_step)
      next
        case acc': (Inr acc')
        with Cons.prems rw Inr roles rl
        have "cdkey_info_retrieval_main_loop rem sess cd_key rs acc' st2 = (res, st')"
          by (simp add: cdkey_info_retrieval_main_loop_step)
        from Cons.IH [OF this] obtain new2 where
          new2: "log st' = log st2 @ new2"
            "\<And>l rest. cdkey_info_retrieval_main_loop replay sess cd_key rs acc'
                          \<lparr>log = l, server = map snd new2 @ rest\<rparr>
                        = (res, \<lparr>log = l @ new2, server = rest\<rparr>)"
          by blast
        show ?thesis
          using new1 new2 Inr roles acc'
          by (intro exI [of _ "(?q, rep) # new1 @ new2"])
            (simp add: cdkey_info_retrieval_main_loop_step)
      qed
    qed
  qed
qed


lemma replay_unique:
  assumes "\<And>l rest. f \<lparr>log = l, server = map snd new1 @ rest\<rparr>
                       = (res1, \<lparr>log = l @ new1, server = rest\<rparr>)"
    and "\<And>l rest. f \<lparr>log = l, server = map snd new2 @ rest\<rparr>
                       = (res2, \<lparr>log = l @ new2, server = rest\<rparr>)"
    and "map snd new1 = map snd new2"
  shows "res1 = res2 \<and> new1 = new2"
proof -
  have "f \<lparr>log = [], server = map snd new1 @ []\<rparr> = (res1, \<lparr>log = [] @ new1, server = []\<rparr>)"
    by (rule assms(1))
  moreover
  have "f \<lparr>log = [], server = map snd new2 @ []\<rparr> = (res2, \<lparr>log = [] @ new2, server = []\<rparr>)"
    by (rule assms(2))
  ultimately show ?thesis using assms(3) by simp
qed

lemma early_loop_same_replies:
  assumes "map snd (log (snd (early_loop dec rem1 hdrs t cdkey rs \<lparr>log = [], server = w1\<rparr>)))
         = map snd (log (snd (early_loop dec rem2 hdrs t cdkey rs \<lparr>log = [], server = w2\<rparr>)))"
  shows "fst (early_loop dec rem1 hdrs t cdkey rs \<lparr>log = [], server = w1\<rparr>)
           = fst (early_loop dec rem2 hdrs t cdkey rs \<lparr>log = [], server = w2\<rparr>)
       \<and> log (snd (early_loop dec rem1 hdrs t cdkey rs \<lparr>log = [], server = w1\<rparr>))
           = log (snd (early_loop dec rem2 hdrs t cdkey rs \<lparr>log = [], server = w2\<rparr>))"
proof -
  obtain res1 st1 where r1: "early_loop dec rem1 hdrs t cdkey rs \<lparr>log = [], server = w1\<rparr> = (res1, st1)"
    by (cases "early_loop dec rem1 hdrs t cdkey rs \<lparr>log = [], server = w1\<rparr>")
  obtain res2 st2 where r2: "early_loop dec rem2 hdrs t cdkey rs \<lparr>log = [], server = w2\<rparr> = (res2, st2)"
    by (cases "early_loop dec rem2 hdrs t cdkey rs \<lparr>log = [], server = w2\<rparr>")
  from early_loop_replay [OF r1] obtain new1 where
    n1: "log st1 = new1"
      "\<And>l rest. early_loop dec replay hdrs t cdkey rs \<lparr>log = l, server = map snd new1 @ rest\<rparr>
                  = (res1, \<lparr>log = l @ new1, server = rest\<rparr>)"
    by auto
  from early_loop_replay [OF r2] obtain new2 where
    n2: "log st2 = new2"
      "\<And>l rest. early_loop dec replay hdrs t cdkey rs \<lparr>log = l, server = map snd new2 @ rest\<rparr>
                  = (res2, \<lparr>log = l @ new2, server = rest\<rparr>)"
    by auto
  from assms r1 r2 n1(1) n2(1) have "map snd new1 = map snd new2" by simp
  from replay_unique [of "early_loop dec replay hdrs t cdkey rs", OF n1(2) n2(2) this]
  show ?thesis using r1 r2 n1(1) n2(1) by simp
qed

lemma cdkey_info_retrieval_main_loop_same_replies:
  assumes "map snd (log (snd (cdkey_info_retrieval_main_loop rem1 sess cd_key rs acc
                                 \<lparr>log = [], server = w1\<rparr>)))
         = map snd (log (snd (cdkey_info_retrieval_main_loop rem2 sess cd_key rs acc
                                 \<lparr>log = [], server = w2\<rparr>)))"
  shows "fst (cdkey_info_retrieval_main_loop rem1 sess cd_key rs acc \<lparr>log = [], server = w1\<rparr>)
           = fst (cdkey_info_retrieval_main_loop rem2 sess cd_key rs acc
                    \<lparr>log = [], server = w2\<rparr>)
       \<and> log (snd (cdkey_info_retrieval_main_loop rem1 sess cd_key rs acc
                      \<lparr>log = [], server = w1\<rparr>))
           = log (snd (cdkey_info_retrieval_main_loop rem2 sess cd_key rs acc
                         \<lparr>log = [], server = w2\<rparr>))"
proof -
  obtain res1 st1 where
    r1: "cdkey_info_retrieval_main_loop rem1 sess cd_key rs acc \<lparr>log = [], server = w1\<rparr>
           = (res1, st1)"
    by (cases "cdkey_info_retrieval_main_loop rem1 sess cd_key rs acc \<lparr>log = [], server = w1\<rparr>")
  obtain res2 st2 where
    r2: "cdkey_info_retrieval_main_loop rem2 sess cd_key rs acc \<lparr>log = [], server = w2\<rparr>
           = (res2, st2)"
    by (cases "cdkey_info_retrieval_main_loop rem2 sess cd_key rs acc \<lparr>log = [], server = w2\<rparr>")
  from cdkey_info_retrieval_main_loop_replay [OF r1] obtain new1 where
    n1: "log st1 = new1"
      "\<And>l rest. cdkey_info_retrieval_main_loop replay sess cd_key rs acc
                    \<lparr>log = l, server = map snd new1 @ rest\<rparr>
                  = (res1, \<lparr>log = l @ new1, server = rest\<rparr>)"
    by auto
  from cdkey_info_retrieval_main_loop_replay [OF r2] obtain new2 where
    n2: "log st2 = new2"
      "\<And>l rest. cdkey_info_retrieval_main_loop replay sess cd_key rs acc
                    \<lparr>log = l, server = map snd new2 @ rest\<rparr>
                  = (res2, \<lparr>log = l @ new2, server = rest\<rparr>)"
    by auto
  from assms r1 r2 n1(1) n2(1) have "map snd new1 = map snd new2" by simp
  from replay_unique [of "cdkey_info_retrieval_main_loop replay sess cd_key rs acc",
      OF n1(2) n2(2) this]
  show ?thesis using r1 r2 n1(1) n2(1) by simp
qed

lemma cdkey_main_same_replies:
  "map snd (log (snd (cdkey_main rem1 cdkey cookie w1)))
     = map snd (log (snd (cdkey_main rem2 cdkey cookie w2)))
   \<Longrightarrow> fst (cdkey_main rem1 cdkey cookie w1) = fst (cdkey_main rem2 cdkey cookie w2)
     \<and> log (snd (cdkey_main rem1 cdkey cookie w1)) = log (snd (cdkey_main rem2 cdkey cookie w2))"
  unfolding cdkey_main_def cdkey_main_loop_early by (rule early_loop_same_replies)

lemma cd_key_retrieval_main_same_replies:
  "map snd (log (snd (cd_key_retrieval_main rem1 cdkey cookie w1)))
     = map snd (log (snd (cd_key_retrieval_main rem2 cdkey cookie w2)))
   \<Longrightarrow> fst (cd_key_retrieval_main rem1 cdkey cookie w1)
       = fst (cd_key_retrieval_main rem2 cdkey cookie w2)
     \<and> log (snd (cd_key_retrieval_main rem1 cdkey cookie w1))
       = log (snd (cd_key_retrieval_main rem2 cdkey cookie w2))"
  unfolding cd_key_retrieval_main_def cd_key_retrieval_main_loop_early
  by (rule early_loop_same_replies)

lemma cdkey_info_retrieval_main_same_replies:
  "map snd (log (snd (cdkey_info_retrieval_main rem1 cdkey cookie w1)))
     = map snd (log (snd (cdkey_info_retrieval_main rem2 cdkey cookie w2)))
   \<Longrightarrow> fst (cdkey_info_retrieval_main rem1 cdkey cookie w1)
       = fst (cdkey_info_retrieval_main rem2 cdkey cookie w2)
     \<and> log (snd (cdkey_info_retrieval_main rem1 cdkey cookie w1))
       = log (snd (cdkey_info_retrieval_main rem2 cdkey cookie w2))"
  unfolding cdkey_info_retrieval_main_def
  by (rule cdkey_info_retrieval_main_loop_same_replies)

text \<open>
  C10. Take two runs of the same driver with the same code and cookie, against any two
  remote sides (of any kind of server state). If the replies the two runs received are
  the same, call after call, then the two runs return the same result (value or
  exception) and made the same calls: the outcome is a function of the code, the cookie
  and the replies.
\<close>

theorem same_replies_same_outcome:
  "(map snd (log (snd (cdkey_main rem1 cdkey cookie w1)))
      = map snd (log (snd (cdkey_main rem2 cdkey cookie w2)))
    \<longrightarrow> fst (cdkey_main rem1 cdkey cookie w1) = fst (cdkey_main rem2 cdkey cookie w2)
        \<and> log (snd (cdkey_main rem1 cdkey cookie w1))
            = log (snd (cdkey_main rem2 cdkey cookie w2)))
   \<and> (map snd (log (snd (cd_key_retrieval_main rem1 cdkey cookie w1)))
      = map snd (log (snd (cd_key_retrieval_main rem2 cdkey cookie w2)))
    \<longrightarrow> fst (cd_key_retrieval_main rem1 cdkey cookie w1)
          = fst (cd_key_retrieval_main rem2 cdkey cookie w2)
        \<and> log (snd (cd_key_retrieval_main rem1 cdkey cookie w1))
            = log (snd (cd_key_retrieval_main rem2 cdkey cookie w2)))
   \<and> (map snd (log (snd (cdkey_info_retrieval_main rem1 cdkey cookie w1)))
      = map snd (log (snd (cdkey_info_retrieval_main rem2 cdkey cookie w2)))
    \<longrightarrow> fst (cdkey_info_retrieval_main rem1 cdkey cookie w1)
          = fst (cdkey_info_retrieval_main rem2 cdkey cookie w2)
        \<and> log (snd (cdkey_info_retrieval_main rem1 cdkey cookie w1))
            = log (snd (cdkey_info_retrieval_main rem2 cdkey cookie w2)))"
  using cdkey_main_same_replies [of rem1 cdkey cookie w1 rem2 w2]
    cd_key_retrieval_main_same_replies [of rem1 cdkey cookie w1 rem2 w2]
    cdkey_info_retrieval_main_same_replies [of rem1 cdkey cookie w1 rem2 w2]
  by blast

theorem same_replies_same_outcome_witness:
  "fst (cdkey_info_retrieval_main used_once ''K'' ''c'' False)
     = fst (cdkey_info_retrieval_main replay ''K'' ''c''
              [Body no_data_body, Body no_data_body, Body (roles_body [role 7, role 7]),
               Body (JObj [(''retcode'', JInt 0)]), Body (JObj [(''retcode'', JInt (- 2017))]),
               Body no_data_body])"
proof -
  have "map snd (log (snd (cdkey_info_retrieval_main used_once ''K'' ''c'' False)))
     = map snd (log (snd (cdkey_info_retrieval_main replay ''K'' ''c''
              [Body no_data_body, Body no_data_body, Body (roles_body [role 7, role 7]),
               Body (JObj [(''retcode'', JInt 0)]), Body (JObj [(''retcode'', JInt (- 2017))]),
               Body no_data_body])))"
    by (simp add: cdkey_info_retrieval_main_def cdkey_info_retrieval_main_loop_step
        roles_loop_step used_once_def roles_request_def roles_params_def region_of_def
        role_listing_def no_data_body_def roles_body_def role_def role_fields_def
        exchange_def exchange_request_def reply_status_def status_get_def status_table_def
        store_def user_roles_url_def CDKEY_API_URL_def)
  with same_replies_same_outcome [of used_once "''K''" "''c''" False replay
      "[Body no_data_body, Body no_data_body, Body (roles_body [role 7, role 7]),
        Body (JObj [(''retcode'', JInt 0)]), Body (JObj [(''retcode'', JInt (- 2017))]),
        Body no_data_body]"]
  show ?thesis by blast
qed

section \<open>Redemption calls and role records\<close>

lemma urls_differ: "user_roles_url \<noteq> CDKEY_API_URL"
  by (simp add: user_roles_url_def CDKEY_API_URL_def)

lemma discovered_append: "discovered (a @ b) = discovered a @ discovered b"
  by (simp add: discovered_def)

lemma redeemed_append: "redeemed (a @ b) = redeemed a @ redeemed b"
  by (simp add: redeemed_def)

lemma discovered_Nil: "discovered [] = []"
  by (simp add: discovered_def)

lemma redeemed_Nil: "redeemed [] = []"
  by (simp add: redeemed_def)

lemma discovered_roles_request:
  "discovered ((roles_request hdrs t r, rep) # cs) = map (Pair r) (reply_uids rep) @ discovered cs"
  by (simp add: discovered_def roles_request_def region_of_def roles_params_def)

lemma redeemed_roles_request: "redeemed ((roles_request hdrs t r, rep) # cs) = redeemed cs"
  using urls_differ by (simp add: redeemed_def roles_request_def)

lemma discovered_exchange_request:
  "discovered ((exchange_request hdrs uid cdkey r biz, rep) # cs) = discovered cs"
  using urls_differ by (simp add: discovered_def exchange_request_def)

lemma redeemed_exchange_request:
  "redeemed ((exchange_request hdrs uid cdkey r biz, rep) # cs) = (r, uid) # redeemed cs"
  by (simp add: redeemed_def exchange_request_def region_of_def uid_of_def exchange_params_def)

lemmas calls_simps =
  discovered_append redeemed_append discovered_Nil redeemed_Nil discovered_roles_request
  redeemed_roles_request discovered_exchange_request redeemed_exchange_request

lemma exchange_log:
  "exchange rem hdrs uid cdkey r biz st = (res, st')
     \<Longrightarrow> \<exists>rep. log st' = log st @ [(exchange_request hdrs uid cdkey r biz, rep)]
             \<and> res = reply_status rep"
  by (auto simp: exchange_def split: prod.splits)

lemma roles_loop_calls:
  "roles_loop rem sess cd_key region roles acc st = (Inr acc', st')
     \<Longrightarrow> redeemed (log st') = redeemed (log st) @ map (Pair region) (role_uids roles)
       \<and> discovered (log st') = discovered (log st)"
proof (induction roles arbitrary: st acc)
  case Nil
  then show ?case by (simp add: role_uids_def)
next
  case (Cons r roles)
  from Cons.prems obtain ub where ub: "role_fields r = Inr ub"
    by (cases "role_fields r") (auto simp: roles_loop_step)
  obtain res2 st2 where
    ex: "exchange rem (session_headers sess) (fst ub) cd_key region (snd ub) st = (res2, st2)"
    by (cases "exchange rem (session_headers sess) (fst ub) cd_key region (snd ub) st")
  from Cons.prems ub ex obtain s where s: "res2 = Inr s"
    by (cases res2) (auto simp: roles_loop_step)
  from Cons.prems ub ex s obtain d where d: "store acc region (fst ub) s = Inr d"
    by (cases "store acc region (fst ub) s") (auto simp: roles_loop_step)
  from Cons.prems ub ex s d
  have rest: "roles_loop rem sess cd_key region roles (Some d) st2 = (Inr acc', st')"
    by (simp add: roles_loop_step)
  from exchange_log [OF ex] obtain rep where
    lg: "log st2 = log st @ [(exchange_request (session_headers sess) (fst ub) cd_key region
                                (snd ub), rep)]"
    by blast
  have uids: "role_uids (r # roles) = fst ub # role_uids roles"
    using ub by (simp add: role_uids_def)
  from Cons.IH [OF rest] show ?case
    by (simp add: lg uids calls_simps)
qed

lemma cdkey_info_retrieval_main_loop_calls:
  "cdkey_info_retrieval_main_loop rem sess cd_key rs acc st = (Inr acc', st')
     \<Longrightarrow> \<exists>X. redeemed (log st') = redeemed (log st) @ X
           \<and> discovered (log st') = discovered (log st) @ X"
proof (induction rs arbitrary: st acc)
  case Nil
  then show ?case by simp
next
  case (Cons r rs)
  let ?q = "roles_request (session_headers sess) 2 r"
  obtain rep w where rw: "rem ?q (server st) = (rep, w)"
    by (cases "rem ?q (server st)")
  let ?st1 = "\<lparr>log = log st @ [(?q, rep)], server = w\<rparr>"
  from Cons.prems rw obtain response where resp: "reply_json rep = Inr response"
    by (cases "reply_json rep") (auto simp: cdkey_info_retrieval_main_loop_step)
  then have rep: "rep = Body response" by (cases rep) auto
  from Cons.prems rw resp obtain roles where roles: "role_listing response = Inr roles"
    by (cases "role_listing response") (auto simp: cdkey_info_retrieval_main_loop_step)
  obtain res2 st2 where rl: "roles_loop rem sess cd_key r roles acc ?st1 = (res2, st2)"
    by (cases "roles_loop rem sess cd_key r roles acc ?st1")
  from Cons.prems rw resp roles rl obtain acc2 where acc2: "res2 = Inr acc2"
    by (cases res2) (auto simp: cdkey_info_retrieval_main_loop_step)
  from Cons.prems rw resp roles rl acc2
  have rest: "cdkey_info_retrieval_main_loop rem sess cd_key rs acc2 st2 = (Inr acc', st')"
    by (simp add: cdkey_info_retrieval_main_loop_step)
  from roles_loop_calls [OF rl [unfolded acc2]]
  have c2: "redeemed (log st2) = redeemed (log st) @ map (Pair r) (role_uids roles)"
    "discovered (log st2) = discovered (log st) @ map (Pair r) (role_uids roles)"
    by (simp_all add: calls_simps reply_uids_def rep roles)
  from Cons.IH [OF rest] obtain X where
    "redeemed (log st') = redeemed (log st2) @ X"
    "discovered (log st') = discovered (log st2) @ X"
    by blast
  with c2 show ?case by simp
qed

lemma first_role_uids:
  "(first_role l = Skip \<longrightarrow> (case py_iter l of Inl e \<Rightarrow> [] | Inr rs \<Rightarrow> role_uids rs) = [])
   \<and> (first_role l = Redeem u b
        \<longrightarrow> take 1 (case py_iter l of Inl e \<Rightarrow> [] | Inr rs \<Rightarrow> role_uids rs) = [u])"
  by (cases l rule: py_getitem0.cases)
    (auto simp: first_role_def role_uids_def role_fields_def split: sum.splits)

lemma cdkey_decide_uids:
  "(cdkey_decide response = Skip \<longrightarrow> reply_uids (Body response) = [])
   \<and> (cdkey_decide response = Redeem u b \<longrightarrow> take 1 (reply_uids (Body response)) = [u])"
proof (cases "py_getitem response ''data''")
  case (Inl e)
  then show ?thesis by (simp add: cdkey_decide_def)
next
  case data: (Inr data)
  show ?thesis
  proof (cases "py_getitem data ''list''")
    case (Inl e)
    with data show ?thesis by (simp add: cdkey_decide_def)
  next
    case (Inr l)
    then have "truthy data" by (cases data) (auto split: option.splits)
    with data Inr first_role_uids [of l u b] show ?thesis
      by (simp add: cdkey_decide_def reply_uids_def role_listing_def)
  qed
qed

lemma cd_key_retrieval_decide_uids:
  "(cd_key_retrieval_decide response = Skip \<longrightarrow> reply_uids (Body response) = [])
   \<and> (cd_key_retrieval_decide response = Redeem u b
        \<longrightarrow> take 1 (reply_uids (Body response)) = [u])"
proof (cases "py_getitem response ''data''")
  case (Inl e)
  then show ?thesis by (simp add: cd_key_retrieval_decide_def)
next
  case data: (Inr data)
  show ?thesis
  proof (cases "truthy data")
    case False
    with data show ?thesis
      by (simp add: cd_key_retrieval_decide_def reply_uids_def role_listing_def role_uids_def)
  next
    case True
    show ?thesis
    proof (cases "py_getitem data ''list''")
      case (Inl e)
      with data True show ?thesis by (simp add: cd_key_retrieval_decide_def)
    next
      case (Inr l)
      with data True first_role_uids [of l u b] show ?thesis
        by (simp add: cd_key_retrieval_decide_def reply_uids_def role_listing_def)
    qed
  qed
qed

lemma early_loop_calls:
  assumes dec: "\<And>response u b.
      (dec response = Skip \<longrightarrow> reply_uids (Body response) = [])
      \<and> (dec response = Redeem u b \<longrightarrow> take 1 (reply_uids (Body response)) = [u])"
  shows "early_loop dec rem hdrs t cdkey rs st = (Inr res, st')
     \<Longrightarrow> \<exists>X. redeemed (log st') = redeemed (log st) @ take 1 X
           \<and> discovered (log st') = discovered (log st) @ X"
proof (induction rs arbitrary: st)
  case Nil
  then show ?case by (intro exI [of _ "[]"]) simp
next
  case (Cons r rs)
  let ?q = "roles_request hdrs t r"
  obtain rep w where rw: "rem ?q (server st) = (rep, w)"
    by (cases "rem ?q (server st)")
  let ?st1 = "\<lparr>log = log st @ [(?q, rep)], server = w\<rparr>"
  from Cons.prems rw obtain response where resp: "reply_json rep = Inr response"
    by (cases "reply_json rep") auto
  then have rep: "rep = Body response" by (cases rep) auto
  show ?case
  proof (cases "dec response")
    case (Raise e)
    with Cons.prems rw resp show ?thesis by simp
  next
    case Skip
    with dec have none: "reply_uids (Body response) = []" by blast
    from Cons.prems rw resp Skip
    have "early_loop dec rem hdrs t cdkey rs ?st1 = (Inr res, st')" by simp
    from Cons.IH [OF this] show ?thesis
      by (simp add: calls_simps rep none)
  next
    case (Redeem u b)
    with dec have one: "take 1 (reply_uids (Body response)) = [u]" by blast
    from Cons.prems rw resp Redeem obtain res2 where
      ex: "exchange rem hdrs u cdkey r b ?st1 = (res2, st')"
      by (auto split: prod.splits)
    from exchange_log [OF ex] obtain rep2 where
      lg: "log st' = log ?st1 @ [(exchange_request hdrs u cdkey r b, rep2)]"
      by blast
    have "take 1 (map (Pair r) (reply_uids (Body response))) = [(r, u)]"
      using one by (simp add: take_map)
    then show ?thesis
      by (intro exI [of _ "map (Pair r) (reply_uids (Body response))"])
        (simp add: lg calls_simps rep del: One_nat_def)
  qed
qed

lemma early_loop_at_most_one:
  "length (redeemed (log (snd (early_loop dec rem hdrs t cdkey rs st))))
     \<le> Suc (length (redeemed (log st)))"
proof (induction rs arbitrary: st)
  case Nil
  show ?case by simp
next
  case (Cons r rs)
  let ?q = "roles_request hdrs t r"
  obtain rep w where rw: "rem ?q (server st) = (rep, w)"
    by (cases "rem ?q (server st)")
  let ?st1 = "\<lparr>log = log st @ [(?q, rep)], server = w\<rparr>"
  have st1: "redeemed (log ?st1) = redeemed (log st)"
    by (simp add: calls_simps)
  show ?case
  proof (cases "reply_json rep")
    case (Inl e)
    with rw st1 show ?thesis by simp
  next
    case (Inr response)
    show ?thesis
    proof (cases "dec response")
      case (Raise e)
      with rw Inr st1 show ?thesis by simp
    next
      case Skip
      with rw Inr Cons.IH [of ?st1] st1 show ?thesis by simp
    next
      case (Redeem u b)
      obtain res2 st2 where ex: "exchange rem hdrs u cdkey r b ?st1 = (res2, st2)"
        by (cases "exchange rem hdrs u cdkey r b ?st1")
      from exchange_log [OF ex] obtain rep2 where
        "log st2 = log ?st1 @ [(exchange_request hdrs u cdkey r b, rep2)]"
        by blast
      with rw Inr Redeem ex show ?thesis
        by (simp add: calls_simps)
    qed
  qed
qed

lemma roles_loop_calls_any:
  "roles_loop rem sess cd_key region roles acc st = (res, st')
     \<Longrightarrow> discovered (log st') = discovered (log st)
       \<and> (\<exists>X Y. redeemed (log st') = redeemed (log st) @ map (Pair region) X
                 \<and> role_uids roles = X @ Y)"
proof (induction roles arbitrary: st acc)
  case Nil
  then show ?case by (simp add: role_uids_def)
next
  case (Cons r roles)
  show ?case
  proof (cases "role_fields r")
    case (Inl e)
    with Cons.prems have "st' = st" by (simp add: roles_loop_step)
    then have "discovered (log st') = discovered (log st)
        \<and> redeemed (log st') = redeemed (log st) @ map (Pair region) []
        \<and> role_uids (r # roles) = [] @ role_uids (r # roles)"
      by simp
    then show ?thesis by blast
  next
    case (Inr ub)
    then have uids: "role_uids (r # roles) = fst ub # role_uids roles"
      by (simp add: role_uids_def)
    obtain res2 st2 where
      ex: "exchange rem (session_headers sess) (fst ub) cd_key region (snd ub) st = (res2, st2)"
      by (cases "exchange rem (session_headers sess) (fst ub) cd_key region (snd ub) st")
    from exchange_log [OF ex] obtain rep where
      lg: "log st2 = log st @ [(exchange_request (session_headers sess) (fst ub) cd_key region
                                  (snd ub), rep)]"
      by blast
    then have c2: "redeemed (log st2) = redeemed (log st) @ map (Pair region) [fst ub]"
      "discovered (log st2) = discovered (log st)"
      by (simp_all add: calls_simps)
    have stop: ?thesis if "st' = st2"
    proof -
      have "discovered (log st') = discovered (log st)
          \<and> redeemed (log st') = redeemed (log st) @ map (Pair region) [fst ub]
          \<and> role_uids (r # roles) = [fst ub] @ role_uids roles"
        unfolding that uids using c2 by simp
      then show ?thesis by blast
    qed
    show ?thesis
    proof (cases res2)
      case (Inl e)
      with Cons.prems Inr ex have "st' = st2" by (simp add: roles_loop_step)
      then show ?thesis by (rule stop)
    next
      case s: (Inr s)
      show ?thesis
      proof (cases "store acc region (fst ub) s")
        case (Inl e)
        with Cons.prems Inr ex s have "st' = st2" by (simp add: roles_loop_step)
        then show ?thesis by (rule stop)
      next
        case d: (Inr d)
        with Cons.prems Inr ex s
        have "roles_loop rem sess cd_key region roles (Some d) st2 = (res, st')"
          by (simp add: roles_loop_step)
        from Cons.IH [OF this] obtain X Y where
          "discovered (log st') = discovered (log st2)"
          "redeemed (log st') = redeemed (log st2) @ map (Pair region) X"
          "role_uids roles = X @ Y"
          by blast
        with c2 uids have "discovered (log st') = discovered (log st)
            \<and> redeemed (log st') = redeemed (log st) @ map (Pair region) (fst ub # X)
            \<and> role_uids (r # roles) = (fst ub # X) @ Y"
          by simp
        then show ?thesis by blast
      qed
    qed
  qed
qed

lemma cdkey_info_retrieval_main_loop_calls_any:
  "cdkey_info_retrieval_main_loop rem sess cd_key rs acc st = (res, st')
     \<Longrightarrow> \<exists>X Y. redeemed (log st') = redeemed (log st) @ X
             \<and> discovered (log st') = discovered (log st) @ X @ Y"
proof (induction rs arbitrary: st acc)
  case Nil
  then show ?case by simp
next
  case (Cons r rs)
  let ?q = "roles_request (session_headers sess) 2 r"
  obtain rep w where rw: "rem ?q (server st) = (rep, w)"
    by (cases "rem ?q (server st)")
  let ?st1 = "\<lparr>log = log st @ [(?q, rep)], server = w\<rparr>"
  have red1: "redeemed (log ?st1) = redeemed (log st)"
    by (simp add: calls_simps)
  have disc1: "discovered (log ?st1) = discovered (log st) @ map (Pair r) (reply_uids rep)"
    by (simp add: calls_simps)
  have stop: ?case if "st' = ?st1"
  proof -
    have "redeemed (log st') = redeemed (log st) @ []
        \<and> discovered (log st') = discovered (log st) @ [] @ map (Pair r) (reply_uids rep)"
      unfolding that red1 disc1 by simp
    then show ?thesis by blast
  qed
  show ?case
  proof (cases "reply_json rep")
    case (Inl e)
    with Cons.prems rw have "st' = ?st1"
      by (simp add: cdkey_info_retrieval_main_loop_step)
    then show ?thesis by (rule stop)
  next
    case (Inr response)
    then have rep: "rep = Body response" by (cases rep) auto
    show ?thesis
    proof (cases "role_listing response")
      case (Inl e)
      with Cons.prems rw Inr have "st' = ?st1"
        by (simp add: cdkey_info_retrieval_main_loop_step)
      then show ?thesis by (rule stop)
    next
      case roles: (Inr roles)
      then have uids: "reply_uids rep = role_uids roles"
        by (simp add: reply_uids_def rep)
      obtain res2 st2 where rl: "roles_loop rem sess cd_key r roles acc ?st1 = (res2, st2)"
        by (cases "roles_loop rem sess cd_key r roles acc ?st1")
      from roles_loop_calls_any [OF rl] obtain X1 Y1 where
        x1: "discovered (log st2) = discovered (log ?st1)"
          "redeemed (log st2) = redeemed (log ?st1) @ map (Pair r) X1"
          "role_uids roles = X1 @ Y1"
        by blast
      show ?thesis
      proof (cases res2)
        case (Inl e)
        with Cons.prems rw Inr roles rl have "st' = st2"
          by (simp add: cdkey_info_retrieval_main_loop_step)
        then have "redeemed (log st') = redeemed (log st) @ map (Pair r) X1
            \<and> discovered (log st') = discovered (log st) @ map (Pair r) X1 @ map (Pair r) Y1"
          using x1 red1 disc1 uids by simp
        then show ?thesis by blast
      next
        case acc2: (Inr acc2)
        with Cons.prems rw Inr roles rl
        have rest: "cdkey_info_retrieval_main_loop rem sess cd_key rs acc2 st2 = (res, st')"
          by (simp add: cdkey_info_retrieval_main_loop_step)
        from roles_loop_calls [OF rl [unfolded acc2]]
        have all: "redeemed (log st2) = redeemed (log ?st1) @ map (Pair r) (role_uids roles)"
          by simp
        from Cons.IH [OF rest] obtain X Y where
          "redeemed (log st') = redeemed (log st2) @ X"
          "discovered (log st') = discovered (log st2) @ X @ Y"
          by blast
        then have "redeemed (log st')
              = redeemed (log st) @ (map (Pair r) (role_uids roles) @ X)
            \<and> discovered (log st')
              = discovered (log st) @ (map (Pair r) (role_uids roles) @ X) @ Y"
          using x1(1) all red1 disc1 uids by simp
        then show ?thesis by blast
      qed
    qed
  qed
qed

lemma early_loop_calls_any:
  assumes dec: "\<And>response u b.
      (dec response = Skip \<longrightarrow> reply_uids (Body response) = [])
      \<and> (dec response = Redeem u b \<longrightarrow> take 1 (reply_uids (Body response)) = [u])"
  shows "early_loop dec rem hdrs t cdkey rs st = (res, st')
     \<Longrightarrow> \<exists>X Y. redeemed (log st') = redeemed (log st) @ X
             \<and> discovered (log st') = discovered (log st) @ X @ Y"
proof (induction rs arbitrary: st)
  case Nil
  then show ?case by simp
next
  case (Cons r rs)
  let ?q = "roles_request hdrs t r"
  obtain rep w where rw: "rem ?q (server st) = (rep, w)"
    by (cases "rem ?q (server st)")
  let ?st1 = "\<lparr>log = log st @ [(?q, rep)], server = w\<rparr>"
  have red1: "redeemed (log ?st1) = redeemed (log st)"
    by (simp add: calls_simps)
  have disc1: "discovered (log ?st1) = discovered (log st) @ map (Pair r) (reply_uids rep)"
    by (simp add: calls_simps)
  have stop: ?case if "st' = ?st1"
  proof -
    have "redeemed (log st') = redeemed (log st) @ []
        \<and> discovered (log st') = discovered (log st) @ [] @ map (Pair r) (reply_uids rep)"
      unfolding that red1 disc1 by simp
    then show ?thesis by blast
  qed
  show ?case
  proof (cases "reply_json rep")
    case (Inl e)
    with Cons.prems rw have "st' = ?st1" by simp
    then show ?thesis by (rule stop)
  next
    case (Inr response)
    then have rep: "rep = Body response" by (cases rep) auto
    show ?thesis
    proof (cases "dec response")
      case (Raise e)
      with Cons.prems rw Inr have "st' = ?st1" by simp
      then show ?thesis by (rule stop)
    next
      case Skip
      with dec have none: "reply_uids rep = []" unfolding rep by blast
      from Cons.prems rw Inr Skip
      have "early_loop dec rem hdrs t cdkey rs ?st1 = (res, st')" by simp
      from Cons.IH [OF this] show ?thesis
        unfolding red1 disc1 none by simp
    next
      case (Redeem u b)
      with dec have one: "take 1 (reply_uids rep) = [u]" unfolding rep by blast
      then have uids: "reply_uids rep = u # tl (reply_uids rep)"
        by (cases "reply_uids rep") auto
      from Cons.prems rw Inr Redeem obtain res2 where
        ex: "exchange rem hdrs u cdkey r b ?st1 = (res2, st')"
        by (auto split: prod.splits)
      from exchange_log [OF ex] obtain rep2 where
        lg: "log st' = log ?st1 @ [(exchange_request hdrs u cdkey r b, rep2)]"
        by blast
      have "redeemed (log st') = redeemed (log st) @ [(r, u)]"
        "discovered (log st') = discovered (log st) @ map (Pair r) (reply_uids rep)"
        unfolding lg by (simp_all add: calls_simps)
      moreover have "map (Pair r) (reply_uids rep)
          = [(r, u)] @ map (Pair r) (tl (reply_uids rep))"
        by (subst uids) simp
      ultimately have "redeemed (log st') = redeemed (log st) @ [(r, u)]
          \<and> discovered (log st')
            = discovered (log st) @ [(r, u)] @ map (Pair r) (tl (reply_uids rep))"
        by simp
      then show ?thesis by blast
    qed
  qed
qed

lemma at_most_one_first:
  assumes "length X \<le> 1" "D = X @ ys"
  shows "set X \<subseteq> set (take 1 D)"
proof (cases X)
  case Nil
  then show ?thesis by simp
next
  case (Cons x xs)
  with assms(1) have "xs = []" by simp
  with Cons assms(2) show ?thesis by simp
qed

lemma cdkey_info_retrieval_main_calls_any:
  "\<exists>ys. discovered (log (snd (cdkey_info_retrieval_main rem cd_key cookie w)))
          = redeemed (log (snd (cdkey_info_retrieval_main rem cd_key cookie w))) @ ys"
proof -
  have "\<exists>X Y. redeemed (log (snd (cdkey_info_retrieval_main_loop rem
                 \<lparr>session_headers = [(''Cookie'', cookie)]\<rparr> cd_key
                 [''os_usa'', ''os_euro'', ''os_asia'', ''os_cht''] None
                 \<lparr>log = [], server = w\<rparr>)))
            = redeemed (log \<lparr>log = [], server = w\<rparr>) @ X
          \<and> discovered (log (snd (cdkey_info_retrieval_main_loop rem
                 \<lparr>session_headers = [(''Cookie'', cookie)]\<rparr> cd_key
                 [''os_usa'', ''os_euro'', ''os_asia'', ''os_cht''] None
                 \<lparr>log = [], server = w\<rparr>)))
            = discovered (log \<lparr>log = [], server = w\<rparr>) @ X @ Y"
    by (rule cdkey_info_retrieval_main_loop_calls_any [OF surjective_pairing])
  then show ?thesis
    by (auto simp add: cdkey_info_retrieval_main_def calls_simps
        simp del: cdkey_info_retrieval_main_loop.simps)
qed

lemma cdkey_main_calls_any:
  "\<exists>ys. discovered (log (snd (cdkey_main rem cd_key cookie w)))
          = redeemed (log (snd (cdkey_main rem cd_key cookie w))) @ ys"
proof -
  have "\<exists>X Y. redeemed (log (snd (early_loop cdkey_decide rem [(''Cookie'', cookie)] 1
                 cd_key [''os_usa'', ''os_euro'', ''os_asia'', ''os_cht'']
                 \<lparr>log = [], server = w\<rparr>)))
            = redeemed (log \<lparr>log = [], server = w\<rparr>) @ X
          \<and> discovered (log (snd (early_loop cdkey_decide rem [(''Cookie'', cookie)] 1
                 cd_key [''os_usa'', ''os_euro'', ''os_asia'', ''os_cht'']
                 \<lparr>log = [], server = w\<rparr>)))
            = discovered (log \<lparr>log = [], server = w\<rparr>) @ X @ Y"
    by (rule early_loop_calls_any [OF cdkey_decide_uids surjective_pairing])
  then show ?thesis
    by (auto simp add: cdkey_main_def cdkey_main_loop_early calls_simps
        simp del: early_loop.simps)
qed

lemma cd_key_retrieval_main_calls_any:
  "\<exists>ys. discovered (log (snd (cd_key_retrieval_main rem cd_key cookie w)))
          = redeemed (log (snd (cd_key_retrieval_main rem cd_key cookie w))) @ ys"
proof -
  have "\<exists>X Y. redeemed (log (snd (early_loop cd_key_retrieval_decide rem
                 [(''Cookie'', cookie)] 1
                 cd_key [''os_usa'', ''os_euro'', ''os_asia'', ''os_cht'']
                 \<lparr>log = [], server = w\<rparr>)))
            = redeemed (log \<lparr>log = [], server = w\<rparr>) @ X
          \<and> discovered (log (snd (early_loop cd_key_retrieval_decide rem
                 [(''Cookie'', cookie)] 1
                 cd_key [''os_usa'', ''os_euro'', ''os_asia'', ''os_cht'']
                 \<lparr>log = [], server = w\<rparr>)))
            = discovered (log \<lparr>log = [], server = w\<rparr>) @ X @ Y"
    by (rule early_loop_calls_any [OF cd_key_retrieval_decide_uids surjective_pairing])
  then show ?thesis
    by (auto simp add: cd_key_retrieval_main_def cd_key_retrieval_main_loop_early calls_simps
        simp del: early_loop.simps)
qed

lemma cdkey_main_at_most_one:
  "length (redeemed (log (snd (cdkey_main rem cd_key cookie w)))) \<le> 1"
  using early_loop_at_most_one [of cdkey_decide rem "[(''Cookie'', cookie)]" 1 cd_key
      "[''os_usa'', ''os_euro'', ''os_asia'', ''os_cht'']" "\<lparr>log = [], server = w\<rparr>"]
  by (simp add: cdkey_main_def cdkey_main_loop_early calls_simps del: early_loop.simps)

lemma cd_key_retrieval_main_at_most_one:
  "length (redeemed (log (snd (cd_key_retrieval_main rem cd_key cookie w)))) \<le> 1"
  using early_loop_at_most_one [of cd_key_retrieval_decide rem "[(''Cookie'', cookie)]" 1
      cd_key "[''os_usa'', ''os_euro'', ''os_asia'', ''os_cht'']" "\<lparr>log = [], server = w\<rparr>"]
  by (simp add: cd_key_retrieval_main_def cd_key_retrieval_main_loop_early calls_simps
      del: early_loop.simps)

text \<open>
  C5, amended. The drivers do not compare account ids: a redemption call is made for
  each role record visited, so a pair (region, account id) gets as many calls as
  there are records carrying it, exactly one when the id occurs once in its region's
  list. In every run of every driver, returning or raising, the calls made are an
  initial segment of the records the role listings of the run showed, in order, one
  call each. In a run of the exhaustive driver that returns they are all of those
  records. The early-return drivers make at most one call in any run, returning or
  raising, and every call they make is for the first record shown; in a run that
  returns the calls are exactly the first record shown, if any.
\<close>

theorem one_call_per_role_record:
  "(\<exists>ys. discovered (log (snd (cdkey_info_retrieval_main rem cd_key cookie w)))
           = redeemed (log (snd (cdkey_info_retrieval_main rem cd_key cookie w))) @ ys)
   \<and> (fst (cdkey_info_retrieval_main rem cd_key cookie w) = Inr t
      \<longrightarrow> redeemed (log (snd (cdkey_info_retrieval_main rem cd_key cookie w)))
            = discovered (log (snd (cdkey_info_retrieval_main rem cd_key cookie w))))
   \<and> length (redeemed (log (snd (cdkey_main rem cd_key cookie w)))) \<le> 1
   \<and> (\<exists>ys. discovered (log (snd (cdkey_main rem cd_key cookie w)))
           = redeemed (log (snd (cdkey_main rem cd_key cookie w))) @ ys)
   \<and> set (redeemed (log (snd (cdkey_main rem cd_key cookie w))))
        \<subseteq> set (take 1 (discovered (log (snd (cdkey_main rem cd_key cookie w)))))
   \<and> (fst (cdkey_main rem cd_key cookie w) = Inr r
      \<longrightarrow> redeemed (log (snd (cdkey_main rem cd_key cookie w)))
            = take 1 (discovered (log (snd (cdkey_main rem cd_key cookie w)))))
   \<and> length (redeemed (log (snd (cd_key_retrieval_main rem cd_key cookie w)))) \<le> 1
   \<and> (\<exists>ys. discovered (log (snd (cd_key_retrieval_main rem cd_key cookie w)))
           = redeemed (log (snd (cd_key_retrieval_main rem cd_key cookie w))) @ ys)
   \<and> set (redeemed (log (snd (cd_key_retrieval_main rem cd_key cookie w))))
        \<subseteq> set (take 1 (discovered (log (snd (cd_key_retrieval_main rem cd_key cookie w)))))
   \<and> (fst (cd_key_retrieval_main rem cd_key cookie w) = Inr r
      \<longrightarrow> redeemed (log (snd (cd_key_retrieval_main rem cd_key cookie w)))
            = take 1 (discovered (log (snd (cd_key_retrieval_main rem cd_key cookie w)))))"
proof (intro conjI impI)
  assume "fst (cdkey_info_retrieval_main rem cd_key cookie w) = Inr t"
  then have "cdkey_info_retrieval_main_loop rem \<lparr>session_headers = [(''Cookie'', cookie)]\<rparr>
       cd_key [''os_usa'', ''os_euro'', ''os_asia'', ''os_cht''] None \<lparr>log = [], server = w\<rparr>
     = (Inr t, snd (cdkey_info_retrieval_main rem cd_key cookie w))"
    by (simp add: cdkey_info_retrieval_main_def prod_eq_iff)
  from cdkey_info_retrieval_main_loop_calls [OF this]
  show "redeemed (log (snd (cdkey_info_retrieval_main rem cd_key cookie w)))
      = discovered (log (snd (cdkey_info_retrieval_main rem cd_key cookie w)))"
    by (auto simp: calls_simps)
next
  show "length (redeemed (log (snd (cdkey_main rem cd_key cookie w)))) \<le> 1"
    by (rule cdkey_main_at_most_one)
next
  show "length (redeemed (log (snd (cd_key_retrieval_main rem cd_key cookie w)))) \<le> 1"
    by (rule cd_key_retrieval_main_at_most_one)
next
  assume "fst (cdkey_main rem cd_key cookie w) = Inr r"
  then have "early_loop cdkey_decide rem [(''Cookie'', cookie)] 1 cd_key
       [''os_usa'', ''os_euro'', ''os_asia'', ''os_cht''] \<lparr>log = [], server = w\<rparr>
     = (Inr r, snd (cdkey_main rem cd_key cookie w))"
    by (simp add: cdkey_main_def cdkey_main_loop_early prod_eq_iff del: early_loop.simps)
  from early_loop_calls [of cdkey_decide, OF cdkey_decide_uids this]
  show "redeemed (log (snd (cdkey_main rem cd_key cookie w)))
      = take 1 (discovered (log (snd (cdkey_main rem cd_key cookie w))))"
    by (auto simp: calls_simps)
next
  assume "fst (cd_key_retrieval_main rem cd_key cookie w) = Inr r"
  then have "early_loop cd_key_retrieval_decide rem [(''Cookie'', cookie)] 1 cd_key
       [''os_usa'', ''os_euro'', ''os_asia'', ''os_cht''] \<lparr>log = [], server = w\<rparr>
     = (Inr r, snd (cd_key_retrieval_main rem cd_key cookie w))"
    by (simp add: cd_key_retrieval_main_def cd_key_retrieval_main_loop_early prod_eq_iff
        del: early_loop.simps)
  from early_loop_calls [of cd_key_retrieval_decide, OF cd_key_retrieval_decide_uids this]
  show "redeemed (log (snd (cd_key_retrieval_main rem cd_key cookie w)))
      = take 1 (discovered (log (snd (cd_key_retrieval_main rem cd_key cookie w))))"
    by (auto simp: calls_simps)
next
  show "\<exists>ys. discovered (log (snd (cdkey_info_retrieval_main rem cd_key cookie w)))
           = redeemed (log (snd (cdkey_info_retrieval_main rem cd_key cookie w))) @ ys"
    by (rule cdkey_info_retrieval_main_calls_any)
next
  show "\<exists>ys. discovered (log (snd (cdkey_main rem cd_key cookie w)))
           = redeemed (log (snd (cdkey_main rem cd_key cookie w))) @ ys"
    by (rule cdkey_main_calls_any)
next
  show "\<exists>ys. discovered (log (snd (cd_key_retrieval_main rem cd_key cookie w)))
           = redeemed (log (snd (cd_key_retrieval_main rem cd_key cookie w))) @ ys"
    by (rule cd_key_retrieval_main_calls_any)
next
  from cdkey_main_calls_any [of rem cd_key cookie w] obtain ys where
    "discovered (log (snd (cdkey_main rem cd_key cookie w)))
       = redeemed (log (snd (cdkey_main rem cd_key cookie w))) @ ys"
    by blast
  with cdkey_main_at_most_one [of rem cd_key cookie w]
  show "set (redeemed (log (snd (cdkey_main rem cd_key cookie w))))
        \<subseteq> set (take 1 (discovered (log (snd (cdkey_main rem cd_key cookie w)))))"
    by (rule at_most_one_first)
next
  from cd_key_retrieval_main_calls_any [of rem cd_key cookie w] obtain ys where
    "discovered (log (snd (cd_key_retrieval_main rem cd_key cookie w)))
       = redeemed (log (snd (cd_key_retrieval_main rem cd_key cookie w))) @ ys"
    by blast
  with cd_key_retrieval_main_at_most_one [of rem cd_key cookie w]
  show "set (redeemed (log (snd (cd_key_retrieval_main rem cd_key cookie w))))
        \<subseteq> set (take 1 (discovered (log (snd (cd_key_retrieval_main rem cd_key cookie w)))))"
    by (rule at_most_one_first)
qed

text \<open>
  C5 as stated fails when a listing carries the same account twice: the pair is
  called twice (and the second status overwrites the first in the table).
\<close>

lemma used_once_run:
  "cdkey_info_retrieval_main used_once ''K'' ''c'' False =
     (Inr (Some [(''os_asia'', [(KInt 7, ''already in use'')])]),
      \<lparr>log =
         [(roles_request [(''Cookie'', ''c'')] 2 ''os_usa'', Body no_data_body),
          (roles_request [(''Cookie'', ''c'')] 2 ''os_euro'', Body no_data_body),
          (roles_request [(''Cookie'', ''c'')] 2 ''os_asia'', Body (roles_body [role 7, role 7])),
          (exchange_request [(''Cookie'', ''c'')] (JInt 7) ''K'' ''os_asia'' (JStr ''hk4e_global''),
           Body (JObj [(''retcode'', JInt 0)])),
          (exchange_request [(''Cookie'', ''c'')] (JInt 7) ''K'' ''os_asia'' (JStr ''hk4e_global''),
           Body (JObj [(''retcode'', JInt (- 2017))])),
          (roles_request [(''Cookie'', ''c'')] 2 ''os_cht'', Body no_data_body)],
       server = True\<rparr>)"
proof -
  have r: "role_listing no_data_body = Inr []"
    "role_listing (roles_body [role 7, role 7]) = Inr [role 7, role 7]"
    "role_fields (role 7) = Inr (JInt 7, JStr ''hk4e_global'')"
    by (simp_all add: role_listing_def no_data_body_def roles_body_def role_fields_def role_def)
  have u: "used_once (roles_request h t ''os_usa'') b = (Body no_data_body, b)"
    "used_once (roles_request h t ''os_euro'') b = (Body no_data_body, b)"
    "used_once (roles_request h t ''os_asia'') b = (Body (roles_body [role 7, role 7]), b)"
    "used_once (roles_request h t ''os_cht'') b = (Body no_data_body, b)"
    "used_once (exchange_request h uid k reg biz) False = (Body (JObj [(''retcode'', JInt 0)]), True)"
    "used_once (exchange_request h uid k reg biz) True
       = (Body (JObj [(''retcode'', JInt (- 2017))]), True)"
    for h t b uid k reg biz
    using urls_differ
    by (simp_all add: used_once_def roles_request_def exchange_request_def region_of_def
        roles_params_def)
  have s: "reply_status (Body (JObj [(''retcode'', JInt 0)])) = Inr ''success''"
    "reply_status (Body (JObj [(''retcode'', JInt (- 2017))])) = Inr ''already in use''"
    by (simp_all add: reply_status_def status_get_def status_table_def)
  have st: "store None ''os_asia'' (JInt 7) ''success'' = Inr [(''os_asia'', [(KInt 7, ''success'')])]"
    "store (Some [(''os_asia'', [(KInt 7, ''success'')])]) ''os_asia'' (JInt 7) ''already in use''
       = Inr [(''os_asia'', [(KInt 7, ''already in use'')])]"
    by (simp_all add: store_def)
  show ?thesis
    by (simp add: cdkey_info_retrieval_main_def cdkey_info_retrieval_main_loop_step
        roles_loop_step exchange_def r u s st)
qed

theorem duplicate_record_two_calls:
  "(''os_asia'', JInt 7)
     \<in> set (discovered (log (snd (cdkey_info_retrieval_main used_once ''K'' ''c'' False))))
   \<and> count_list (redeemed (log (snd (cdkey_info_retrieval_main used_once ''K'' ''c'' False))))
       (''os_asia'', JInt 7) = 2
   \<and> fst (cdkey_info_retrieval_main used_once ''K'' ''c'' False)
       = Inr (Some [(''os_asia'', [(KInt 7, ''already in use'')])])"
  by (simp add: used_once_run calls_simps reply_uids_def role_listing_def no_data_body_def
      roles_body_def role_uids_def role_fields_def role_def)

text \<open>
  A run that raises: two accounts are listed for \<^verbatim>\<open>os_usa\<close> and the redemption
  endpoint does not reply. One call was made, for the first of the two records.
\<close>

lemma no_exchange_run:
  "cdkey_info_retrieval_main no_exchange ''K'' ''c'' () =
     (Inl RequestException,
      \<lparr>log =
         [(roles_request [(''Cookie'', ''c'')] 2 ''os_usa'', Body (roles_body [role 1, role 2])),
          (exchange_request [(''Cookie'', ''c'')] (JInt 1) ''K'' ''os_usa'' (JStr ''hk4e_global''),
           NoReply)],
       server = ()\<rparr>)"
proof -
  have r: "role_listing (roles_body [role 1, role 2]) = Inr [role 1, role 2]"
    "role_fields (role 1) = Inr (JInt 1, JStr ''hk4e_global'')"
    by (simp_all add: role_listing_def roles_body_def role_fields_def role_def)
  have u: "no_exchange (roles_request h t ''os_usa'') b = (Body (roles_body [role 1, role 2]), b)"
    "no_exchange (exchange_request h uid k reg biz) b = (NoReply, b)"
    for h t b uid k reg biz
    using urls_differ
    by (simp_all add: no_exchange_def roles_request_def exchange_request_def region_of_def
        roles_params_def)
  have s: "reply_status NoReply = Inl RequestException"
    by (simp add: reply_status_def)
  show ?thesis
    by (simp add: cdkey_info_retrieval_main_def cdkey_info_retrieval_main_loop_step
        roles_loop_step exchange_def r u s)
qed

lemma no_exchange_early_run:
  "cdkey_main no_exchange ''K'' ''c'' () =
     (Inl RequestException,
      \<lparr>log =
         [(roles_request [(''Cookie'', ''c'')] 1 ''os_usa'', Body (roles_body [role 1, role 2])),
          (exchange_request [(''Cookie'', ''c'')] (JInt 1) ''K'' ''os_usa'' (JStr ''hk4e_global''),
           NoReply)],
       server = ()\<rparr>)"
proof -
  have r: "cdkey_decide (roles_body [role 1, role 2]) = Redeem (JInt 1) (JStr ''hk4e_global'')"
    by (simp add: cdkey_decide_def first_role_def roles_body_def role_def)
  have u: "no_exchange (roles_request h t ''os_usa'') b = (Body (roles_body [role 1, role 2]), b)"
    "no_exchange (exchange_request h uid k reg biz) b = (NoReply, b)"
    for h t b uid k reg biz
    using urls_differ
    by (simp_all add: no_exchange_def roles_request_def exchange_request_def region_of_def
        roles_params_def)
  have s: "reply_status NoReply = Inl RequestException"
    by (simp add: reply_status_def)
  show ?thesis
    by (simp add: cdkey_main_def cdkey_main_loop_early exchange_def r u s)
qed

theorem one_call_per_role_record_witness:
  "redeemed (log (snd (cdkey_info_retrieval_main used_once ''K'' ''c'' False)))
     = [(''os_asia'', JInt 7), (''os_asia'', JInt 7)]
   \<and> discovered (log (snd (cdkey_info_retrieval_main used_once ''K'' ''c'' False)))
     = [(''os_asia'', JInt 7), (''os_asia'', JInt 7)]
   \<and> fst (cdkey_info_retrieval_main no_exchange ''K'' ''c'' ()) = Inl RequestException
   \<and> redeemed (log (snd (cdkey_info_retrieval_main no_exchange ''K'' ''c'' ())))
     = [(''os_usa'', JInt 1)]
   \<and> discovered (log (snd (cdkey_info_retrieval_main no_exchange ''K'' ''c'' ())))
     = [(''os_usa'', JInt 1), (''os_usa'', JInt 2)]
   \<and> fst (cdkey_main no_exchange ''K'' ''c'' ()) = Inl RequestException
   \<and> redeemed (log (snd (cdkey_main no_exchange ''K'' ''c'' ())))
     = [(''os_usa'', JInt 1)]
   \<and> discovered (log (snd (cdkey_main no_exchange ''K'' ''c'' ())))
     = [(''os_usa'', JInt 1), (''os_usa'', JInt 2)]"
  using one_call_per_role_record [of used_once "''K''" "''c''" False
      "Some [(''os_asia'', [(KInt 7, ''already in use'')])]"]
    one_call_per_role_record [of no_exchange "''K''" "''c''" "()"]
  by (simp add: used_once_run no_exchange_run no_exchange_early_run calls_simps
      reply_uids_def role_listing_def roles_body_def role_uids_def role_fields_def role_def)

section \<open>Where a status comes from\<close>













section \<open>No account in any region\<close>

lemma answersD: "answers rem q rep \<Longrightarrow> \<exists>w'. rem q w = (rep, w')"
  by (cases "rem q w") (auto simp: answers_def dest: spec [of _ w])

lemma no_roles_regions:
  assumes "\<forall>r \<in> set rs. \<exists>b. answers rem (roles_request (session_headers sess) 2 r) (Body b)
                            \<and> role_listing b = Inr []"
  shows "fst (cdkey_info_retrieval_main_loop rem sess cd_key rs acc st) = Inr acc"
  using assms
proof (induction rs arbitrary: st)
  case Nil
  show ?case by simp
next
  case (Cons r rs)
  from Cons.prems obtain b where
    b: "answers rem (roles_request (session_headers sess) 2 r) (Body b)"
      "role_listing b = Inr []"
    by auto
  from answersD [OF b(1)] obtain w' where
    "rem (roles_request (session_headers sess) 2 r) (server st) = (Body b, w')"
    by blast
  with b(2) Cons.IH Cons.prems show ?case
    by (simp add: cdkey_info_retrieval_main_loop_step)
qed

lemma dict_set_nonempty: "dict_set d k v \<noteq> []"
  by (cases d) auto

lemma store_nonempty: "store acc region uid s = Inr d \<Longrightarrow> d \<noteq> []"
  by (auto simp: store_def Let_def dict_set_nonempty split: option.splits sum.splits)

lemma roles_loop_nonempty:
  "acc \<noteq> Some [] \<Longrightarrow> roles_loop rem sess cd_key region roles acc st = (Inr acc', st')
     \<Longrightarrow> acc' \<noteq> Some []"
proof (induction roles arbitrary: st acc)
  case Nil
  then show ?case by simp
next
  case (Cons r roles)
  from Cons.prems obtain ub where ub: "role_fields r = Inr ub"
    by (cases "role_fields r") (auto simp: roles_loop_step)
  obtain res2 st2 where
    ex: "exchange rem (session_headers sess) (fst ub) cd_key region (snd ub) st = (res2, st2)"
    by (cases "exchange rem (session_headers sess) (fst ub) cd_key region (snd ub) st")
  from Cons.prems ub ex obtain s where s: "res2 = Inr s"
    by (cases res2) (auto simp: roles_loop_step)
  from Cons.prems ub ex s obtain d where d: "store acc region (fst ub) s = Inr d"
    by (cases "store acc region (fst ub) s") (auto simp: roles_loop_step)
  from Cons.prems ub ex s d
  have rest: "roles_loop rem sess cd_key region roles (Some d) st2 = (Inr acc', st')"
    by (simp add: roles_loop_step)
  from store_nonempty [OF d] have "Some d \<noteq> Some []" by simp
  from Cons.IH [OF this rest] show ?case .
qed

lemma cdkey_info_retrieval_main_loop_nonempty:
  "acc \<noteq> Some []
     \<Longrightarrow> cdkey_info_retrieval_main_loop rem sess cd_key rs acc st = (Inr acc', st')
     \<Longrightarrow> acc' \<noteq> Some []"
proof (induction rs arbitrary: st acc)
  case Nil
  then show ?case by simp
next
  case (Cons r rs)
  let ?q = "roles_request (session_headers sess) 2 r"
  obtain rep w where rw: "rem ?q (server st) = (rep, w)"
    by (cases "rem ?q (server st)")
  let ?st1 = "\<lparr>log = log st @ [(?q, rep)], server = w\<rparr>"
  from Cons.prems rw obtain response where resp: "reply_json rep = Inr response"
    by (cases "reply_json rep") (auto simp: cdkey_info_retrieval_main_loop_step)
  from Cons.prems rw resp obtain roles where roles: "role_listing response = Inr roles"
    by (cases "role_listing response") (auto simp: cdkey_info_retrieval_main_loop_step)
  obtain res2 st2 where rl: "roles_loop rem sess cd_key r roles acc ?st1 = (res2, st2)"
    by (cases "roles_loop rem sess cd_key r roles acc ?st1")
  from Cons.prems rw resp roles rl obtain acc2 where acc2: "res2 = Inr acc2"
    by (cases res2) (auto simp: cdkey_info_retrieval_main_loop_step)
  from Cons.prems rw resp roles rl acc2
  have rest: "cdkey_info_retrieval_main_loop rem sess cd_key rs acc2 st2 = (Inr acc', st')"
    by (simp add: cdkey_info_retrieval_main_loop_step)
  from roles_loop_nonempty [OF Cons.prems(1) rl [unfolded acc2]]
  have "acc2 \<noteq> Some []" .
  from Cons.IH [OF this rest] show ?case .
qed

lemma roles_loop_table_redeemed:
  "(acc \<noteq> None \<longrightarrow> redeemed (log st) \<noteq> [])
     \<Longrightarrow> roles_loop rem sess cd_key region roles acc st = (Inr acc', st')
     \<Longrightarrow> (acc' \<noteq> None \<longrightarrow> redeemed (log st') \<noteq> [])"
proof (induction roles arbitrary: st acc)
  case Nil
  then show ?case by simp
next
  case (Cons r roles)
  from Cons.prems obtain ub where ub: "role_fields r = Inr ub"
    by (cases "role_fields r") (auto simp: roles_loop_step)
  obtain res2 st2 where
    ex: "exchange rem (session_headers sess) (fst ub) cd_key region (snd ub) st = (res2, st2)"
    by (cases "exchange rem (session_headers sess) (fst ub) cd_key region (snd ub) st")
  from Cons.prems ub ex obtain s where s: "res2 = Inr s"
    by (cases res2) (auto simp: roles_loop_step)
  from Cons.prems ub ex s obtain d where d: "store acc region (fst ub) s = Inr d"
    by (cases "store acc region (fst ub) s") (auto simp: roles_loop_step)
  from Cons.prems ub ex s d
  have rest: "roles_loop rem sess cd_key region roles (Some d) st2 = (Inr acc', st')"
    by (simp add: roles_loop_step)
  from exchange_log [OF ex] have "redeemed (log st2) \<noteq> []"
    by (auto simp: calls_simps)
  then have "Some d \<noteq> None \<longrightarrow> redeemed (log st2) \<noteq> []" by simp
  from Cons.IH [OF this rest] show ?case .
qed

lemma cdkey_info_retrieval_main_loop_table_redeemed:
  "(acc \<noteq> None \<longrightarrow> redeemed (log st) \<noteq> [])
     \<Longrightarrow> cdkey_info_retrieval_main_loop rem sess cd_key rs acc st = (Inr acc', st')
     \<Longrightarrow> (acc' \<noteq> None \<longrightarrow> redeemed (log st') \<noteq> [])"
proof (induction rs arbitrary: st acc)
  case Nil
  then show ?case by simp
next
  case (Cons r rs)
  let ?q = "roles_request (session_headers sess) 2 r"
  obtain rep w where rw: "rem ?q (server st) = (rep, w)"
    by (cases "rem ?q (server st)")
  let ?st1 = "\<lparr>log = log st @ [(?q, rep)], server = w\<rparr>"
  from Cons.prems rw obtain response where resp: "reply_json rep = Inr response"
    by (cases "reply_json rep") (auto simp: cdkey_info_retrieval_main_loop_step)
  from Cons.prems rw resp obtain roles where roles: "role_listing response = Inr roles"
    by (cases "role_listing response") (auto simp: cdkey_info_retrieval_main_loop_step)
  obtain res2 st2 where rl: "roles_loop rem sess cd_key r roles acc ?st1 = (res2, st2)"
    by (cases "roles_loop rem sess cd_key r roles acc ?st1")
  from Cons.prems rw resp roles rl obtain acc2 where acc2: "res2 = Inr acc2"
    by (cases res2) (auto simp: cdkey_info_retrieval_main_loop_step)
  from Cons.prems rw resp roles rl acc2
  have rest: "cdkey_info_retrieval_main_loop rem sess cd_key rs acc2 st2 = (Inr acc', st')"
    by (simp add: cdkey_info_retrieval_main_loop_step)
  have "acc \<noteq> None \<longrightarrow> redeemed (log ?st1) \<noteq> []"
    using Cons.prems(1) by (simp add: calls_simps)
  from roles_loop_table_redeemed [OF this rl [unfolded acc2]]
  have "acc2 \<noteq> None \<longrightarrow> redeemed (log st2) \<noteq> []" .
  from Cons.IH [OF this rest] show ?case .
qed

text \<open>
  C9. \<^verbatim>\<open>cd_key_statuses\<close> starts as None and becomes a dict only when a status
  is stored. When the role listing of each of the four regions shows no record (no
  data payload, or an empty list), the exhaustive driver returns None; more
  generally a run that returns and whose listings showed no account returns None;
  and no run returns an empty table.
\<close>

theorem no_account_returns_None:
  "((\<forall>r \<in> set [''os_usa'', ''os_euro'', ''os_asia'', ''os_cht''].
        \<exists>b. answers rem (roles_request [(''Cookie'', cookie)] 2 r) (Body b)
            \<and> role_listing b = Inr [])
      \<longrightarrow> fst (cdkey_info_retrieval_main rem cd_key cookie w) = Inr None)
   \<and> (fst (cdkey_info_retrieval_main rem cd_key cookie w) = Inr t
        \<and> discovered (log (snd (cdkey_info_retrieval_main rem cd_key cookie w))) = []
      \<longrightarrow> t = None)
   \<and> fst (cdkey_info_retrieval_main rem cd_key cookie w) \<noteq> Inr (Some [])"
proof (intro conjI impI)
  assume "\<forall>r \<in> set [''os_usa'', ''os_euro'', ''os_asia'', ''os_cht''].
        \<exists>b. answers rem (roles_request [(''Cookie'', cookie)] 2 r) (Body b)
            \<and> role_listing b = Inr []"
  then show "fst (cdkey_info_retrieval_main rem cd_key cookie w) = Inr None"
    unfolding cdkey_info_retrieval_main_def
    by (intro no_roles_regions) simp
next
  let ?st' = "snd (cdkey_info_retrieval_main rem cd_key cookie w)"
  assume a: "fst (cdkey_info_retrieval_main rem cd_key cookie w) = Inr t
    \<and> discovered (log ?st') = []"
  then have run: "cdkey_info_retrieval_main_loop rem
       \<lparr>session_headers = [(''Cookie'', cookie)]\<rparr> cd_key
       [''os_usa'', ''os_euro'', ''os_asia'', ''os_cht''] None \<lparr>log = [], server = w\<rparr>
     = (Inr t, ?st')"
    by (simp add: cdkey_info_retrieval_main_def prod_eq_iff)
  from cdkey_info_retrieval_main_loop_calls [OF run] a
  have "redeemed (log ?st') = []" by (auto simp: calls_simps)
  with cdkey_info_retrieval_main_loop_table_redeemed [OF _ run]
  show "t = None" by auto
next
  show "fst (cdkey_info_retrieval_main rem cd_key cookie w) \<noteq> Inr (Some [])"
  proof
    assume "fst (cdkey_info_retrieval_main rem cd_key cookie w) = Inr (Some [])"
    then have "cdkey_info_retrieval_main_loop rem
         \<lparr>session_headers = [(''Cookie'', cookie)]\<rparr> cd_key
         [''os_usa'', ''os_euro'', ''os_asia'', ''os_cht''] None \<lparr>log = [], server = w\<rparr>
       = (Inr (Some []), snd (cdkey_info_retrieval_main rem cd_key cookie w))"
      by (simp add: cdkey_info_retrieval_main_def prod_eq_iff)
    from cdkey_info_retrieval_main_loop_nonempty [OF _ this] show False by simp
  qed
qed

theorem no_account_returns_None_witness:
  "fst (cdkey_info_retrieval_main (mock_remote (\<lambda>r. if r = ''os_usa'' then roles_body []
                                                  else no_data_body) JNull) ''K'' ''c'' ())
     = Inr None"
proof -
  let ?roles = "\<lambda>r. if r = ''os_usa'' then roles_body [] else no_data_body"
  have l: "role_listing (roles_body []) = Inr []" "role_listing no_data_body = Inr []"
    by (simp_all add: role_listing_def roles_body_def no_data_body_def)
  have a: "answers (mock_remote ?roles JNull) (roles_request [(''Cookie'', ''c'')] 2 r)
          (Body (?roles r))" for r
    by (simp add: answers_def mock_remote_def roles_request_def region_of_def roles_params_def)
  have "\<forall>r \<in> set [''os_usa'', ''os_euro'', ''os_asia'', ''os_cht''].
        \<exists>b. answers (mock_remote ?roles JNull) (roles_request [(''Cookie'', ''c'')] 2 r) (Body b)
            \<and> role_listing b = Inr []"
  proof
    fix r :: string
    have "role_listing (?roles r) = Inr []" using l by simp
    with a [of r]
    show "\<exists>b. answers (mock_remote ?roles JNull) (roles_request [(''Cookie'', ''c'')] 2 r) (Body b)
            \<and> role_listing b = Inr []"
      by blast
  qed
  with no_account_returns_None [of "mock_remote ?roles JNull" "''c''" "''K''" "()" None]
  show ?thesis by blast
qed

section \<open>Two accounts in one region\<close>

text \<open>
  C4. The role listing of \<^verbatim>\<open>os_usa\<close> shows exactly two records, of two accounts
  with different keys, and the listings of the three other regions, each as the remote
  side answers it at its turn in the run, show none. The remote side is followed
  through the run, state by state: the redemption endpoint answers the call for the
  first account in the state the listing left, and the call for the second in the
  state the first call left, so nothing requires it to answer the same way twice.
  When both answers yield a status the exhaustive driver returns a table with the
  single key \<^verbatim>\<open>os_usa\<close> and, under it, exactly two entries in listing order:
  each account's key with the status of that account's own call. The run made exactly
  these six requests.
\<close>

theorem two_accounts_two_entries:
  assumes usa: "rem (roles_request [(''Cookie'', cookie)] 2 ''os_usa'') w = (Body b, w1)"
    and two: "role_listing b = Inr [r1, r2]"
    and r1: "role_fields r1 = Inr (u1, g1)" "hash_key u1 = Inr k1"
    and r2: "role_fields r2 = Inr (u2, g2)" "hash_key u2 = Inr k2"
    and distinct: "k1 \<noteq> k2"
    and c1: "rem (exchange_request [(''Cookie'', cookie)] u1 cd_key ''os_usa'' g1) w1 = (rep1, w2)"
      "reply_status rep1 = Inr s1"
    and c2: "rem (exchange_request [(''Cookie'', cookie)] u2 cd_key ''os_usa'' g2) w2 = (rep2, w3)"
      "reply_status rep2 = Inr s2"
    and euro: "rem (roles_request [(''Cookie'', cookie)] 2 ''os_euro'') w3 = (Body b_euro, w4)"
      "role_listing b_euro = Inr []"
    and asia: "rem (roles_request [(''Cookie'', cookie)] 2 ''os_asia'') w4 = (Body b_asia, w5)"
      "role_listing b_asia = Inr []"
    and cht: "rem (roles_request [(''Cookie'', cookie)] 2 ''os_cht'') w5 = (Body b_cht, w6)"
      "role_listing b_cht = Inr []"
  shows "cdkey_info_retrieval_main rem cd_key cookie w
           = (Inr (Some [(''os_usa'', [(k1, s1), (k2, s2)])]),
              \<lparr>log =
                 [(roles_request [(''Cookie'', cookie)] 2 ''os_usa'', Body b),
                  (exchange_request [(''Cookie'', cookie)] u1 cd_key ''os_usa'' g1, rep1),
                  (exchange_request [(''Cookie'', cookie)] u2 cd_key ''os_usa'' g2, rep2),
                  (roles_request [(''Cookie'', cookie)] 2 ''os_euro'', Body b_euro),
                  (roles_request [(''Cookie'', cookie)] 2 ''os_asia'', Body b_asia),
                  (roles_request [(''Cookie'', cookie)] 2 ''os_cht'', Body b_cht)],
               server = w6\<rparr>)"
proof -
  have s1: "store None ''os_usa'' u1 s1 = Inr [(''os_usa'', [(k1, s1)])]"
    using r1(2) by (simp add: store_def)
  have s2: "store (Some [(''os_usa'', [(k1, s1)])]) ''os_usa'' u2 s2
              = Inr [(''os_usa'', [(k1, s1), (k2, s2)])]"
    using r2(2) distinct by (simp add: store_def)
  show ?thesis
    by (simp add: cdkey_info_retrieval_main_def cdkey_info_retrieval_main_loop_step
        roles_loop_step exchange_def usa two r1 r2 c1 c2 euro asia cht s1 s2)
qed

theorem two_accounts_two_entries_witness:
  "cdkey_info_retrieval_main first_ok_then_used ''K'' ''c'' False
     = (Inr (Some [(''os_usa'', [(KInt 11, ''success''), (KInt 12, ''already in use'')])]),
        \<lparr>log =
           [(roles_request [(''Cookie'', ''c'')] 2 ''os_usa'', Body (roles_body [role 11, role 12])),
            (exchange_request [(''Cookie'', ''c'')] (JInt 11) ''K'' ''os_usa'' (JStr ''hk4e_global''),
             Body (JObj [(''retcode'', JInt 0)])),
            (exchange_request [(''Cookie'', ''c'')] (JInt 12) ''K'' ''os_usa'' (JStr ''hk4e_global''),
             Body (JObj [(''retcode'', JInt (- 2017))])),
            (roles_request [(''Cookie'', ''c'')] 2 ''os_euro'', Body no_data_body),
            (roles_request [(''Cookie'', ''c'')] 2 ''os_asia'', Body no_data_body),
            (roles_request [(''Cookie'', ''c'')] 2 ''os_cht'', Body no_data_body)],
         server = True\<rparr>)"
  using urls_differ
  by (intro two_accounts_two_entries [where ?r1.0 = "role 11" and ?r2.0 = "role 12"])
    (simp_all add: first_ok_then_used_def roles_request_def exchange_request_def region_of_def
      roles_params_def role_listing_def roles_body_def no_data_body_def role_fields_def
      role_def reply_status_def status_get_def status_table_def)

section \<open>The early-return drivers on listings they can read\<close>

text \<open>
  What the two early-return drivers do when no listing makes them raise. A region
  is skipped by \<^verbatim>\<open>cd_key_retrieval.py\<close> when its data payload or its list is falsy,
  by \<^verbatim>\<open>cdkey.py\<close> only when the payload is a dict with a falsy list. When each
  region is skipped the driver returns None; when the regions before one are skipped
  and that one shows a first record with its two fields, the driver makes its only
  redemption call for that record and returns the outcome of that call.
\<close>

lemma early_loop_skips:
  assumes "\<forall>r \<in> set rs. \<exists>b. answers rem (roles_request hdrs t r) (Body b) \<and> dec b = Skip"
  shows "fst (early_loop dec rem hdrs t cdkey rs st) = Inr None
       \<and> redeemed (log (snd (early_loop dec rem hdrs t cdkey rs st))) = redeemed (log st)"
  using assms
proof (induction rs arbitrary: st)
  case Nil
  show ?case by simp
next
  case (Cons r rs)
  from Cons.prems obtain b where
    b: "answers rem (roles_request hdrs t r) (Body b)" "dec b = Skip"
    by auto
  from answersD [OF b(1)] obtain w' where
    "rem (roles_request hdrs t r) (server st) = (Body b, w')"
    by blast
  with b(2) Cons.IH Cons.prems show ?case
    by (simp add: calls_simps)
qed

lemma map_sum_wrap: "map_sum id Some res = wrap res"
  by (cases res) (simp_all add: wrap_def)

lemma early_loop_first_account:
  assumes "\<forall>r' \<in> set pre. \<exists>b'. answers rem (roles_request hdrs t r') (Body b') \<and> dec b' = Skip"
    and "answers rem (roles_request hdrs t r) (Body b)"
    and "dec b = Redeem uid biz"
  shows "\<exists>st1. redeemed (log st1) = redeemed (log st)
           \<and> early_loop dec rem hdrs t cdkey (pre @ r # post) st
               = (case exchange rem hdrs uid cdkey r biz st1 of
                    (res, st2) \<Rightarrow> (wrap res, st2))"
  using assms(1)
proof (induction pre arbitrary: st)
  case Nil
  from answersD [OF assms(2)] obtain w' where
    "rem (roles_request hdrs t r) (server st) = (Body b, w')"
    by blast
  with assms(3) show ?case
    by (intro exI [of _ "\<lparr>log = log st @ [(roles_request hdrs t r, Body b)], server = w'\<rparr>"])
      (simp add: calls_simps map_sum_wrap)
next
  case (Cons r' pre)
  from Cons.prems obtain b' where
    b': "answers rem (roles_request hdrs t r') (Body b')" "dec b' = Skip"
    by auto
  from answersD [OF b'(1)] obtain w' where
    rw: "rem (roles_request hdrs t r') (server st) = (Body b', w')"
    by blast
  let ?st1 = "\<lparr>log = log st @ [(roles_request hdrs t r', Body b')], server = w'\<rparr>"
  from Cons.IH [of ?st1] Cons.prems obtain st1 where
    "redeemed (log st1) = redeemed (log ?st1)"
    "early_loop dec rem hdrs t cdkey (pre @ r # post) ?st1
       = (case exchange rem hdrs uid cdkey r biz st1 of
            (res, st2) \<Rightarrow> (wrap res, st2))"
    by (metis list.set_intros(2))
  with rw b'(2) show ?case
    by (intro exI [of _ st1]) (simp add: calls_simps map_sum_wrap)
qed

lemma cd_key_retrieval_decide_Skip:
  assumes "py_getitem response ''data'' = Inr data"
    and "\<not> truthy data \<or> (\<exists>l. py_getitem data ''list'' = Inr l \<and> \<not> truthy l)"
  shows "cd_key_retrieval_decide response = Skip"
  using assms by (auto simp: cd_key_retrieval_decide_def first_role_def)

lemma cdkey_decide_Skip:
  assumes "py_getitem response ''data'' = Inr data"
    and "py_getitem data ''list'' = Inr l" and "\<not> truthy l"
  shows "cdkey_decide response = Skip"
  using assms by (simp add: cdkey_decide_def first_role_def)

lemma cd_key_retrieval_main_None:
  assumes "\<forall>r \<in> set [''os_usa'', ''os_euro'', ''os_asia'', ''os_cht''].
      \<exists>b. answers rem (roles_request [(''Cookie'', cookie)] 1 r) (Body b)
          \<and> cd_key_retrieval_decide b = Skip"
  shows "fst (cd_key_retrieval_main rem cd_key cookie w) = Inr None"
  unfolding cd_key_retrieval_main_def cd_key_retrieval_main_loop_early
  using early_loop_skips [OF assms] by blast

lemma cdkey_main_None:
  assumes "\<forall>r \<in> set [''os_usa'', ''os_euro'', ''os_asia'', ''os_cht''].
      \<exists>b. answers rem (roles_request [(''Cookie'', cookie)] 1 r) (Body b)
          \<and> cdkey_decide b = Skip"
  shows "fst (cdkey_main rem cdkey cookie w) = Inr None"
  unfolding cdkey_main_def cdkey_main_loop_early
  using early_loop_skips [OF assms] by blast

lemma cd_key_retrieval_main_first_account:
  assumes "[''os_usa'', ''os_euro'', ''os_asia'', ''os_cht''] = pre @ r # post"
    and "\<forall>r' \<in> set pre. \<exists>b'. answers rem (roles_request [(''Cookie'', cookie)] 1 r') (Body b')
                             \<and> cd_key_retrieval_decide b' = Skip"
    and "answers rem (roles_request [(''Cookie'', cookie)] 1 r) (Body b)"
    and "cd_key_retrieval_decide b = Redeem uid biz"
  shows "\<exists>st1. redeemed (log st1) = []
           \<and> cd_key_retrieval_main rem cd_key cookie w
               = (case cd_key_retrieval_get_cdkey_status rem uid cd_key cookie r biz st1 of
                    (res, st2) \<Rightarrow> (wrap res, st2))"
  unfolding cd_key_retrieval_main_def cd_key_retrieval_main_loop_early assms(1)
    cd_key_retrieval_get_cdkey_status_exchange
  using early_loop_first_account [OF assms(2-4), of "\<lparr>log = [], server = w\<rparr>" cd_key post]
  by (simp add: calls_simps map_sum_wrap)

lemma cdkey_main_first_account:
  assumes "[''os_usa'', ''os_euro'', ''os_asia'', ''os_cht''] = pre @ r # post"
    and "\<forall>r' \<in> set pre. \<exists>b'. answers rem (roles_request [(''Cookie'', cookie)] 1 r') (Body b')
                             \<and> cdkey_decide b' = Skip"
    and "answers rem (roles_request [(''Cookie'', cookie)] 1 r) (Body b)"
    and "cdkey_decide b = Redeem uid biz"
  shows "\<exists>st1. redeemed (log st1) = []
           \<and> cdkey_main rem cdkey cookie w
               = (case cdkey_get_cdkey_info rem uid cdkey cookie r biz st1 of
                    (res, st2) \<Rightarrow> (wrap res, st2))"
  unfolding cdkey_main_def cdkey_main_loop_early assms(1) cdkey_get_cdkey_info_exchange
  using early_loop_first_account [OF assms(2-4), of "\<lparr>log = [], server = w\<rparr>" cdkey post]
  by (simp add: calls_simps)

end
